theory Spec2Isabelle
  imports Complex_Main "HOL-Library.AList" "HOL-Library.Sublist"
begin

section \<open>Job queue (app/queue.py)\<close>

text \<open>
  \<^verbatim>\<open>DownloadJob\<close> is a frozen dataclass. \<^verbatim>\<open>DownloadQueue\<close> holds the list
  \<^verbatim>\<open>_items\<close> and an \<^verbatim>\<open>asyncio.Condition\<close>; every method body runs under that
  condition's lock on a single event loop, so each call is one atomic transition of the list.
\<close>

record DownloadJob =
  chat_id :: int
  request_url :: string
  urls :: "string list"
  max_height :: "int option"
  playlist_items :: "string option"
  progress_message_id :: int

type_synonym DownloadQueue = "DownloadJob list"

definition qsize :: "DownloadQueue \<Rightarrow> nat" where
  "qsize items = length items"

text \<open>\<^verbatim>\<open>enqueue\<close>: append, then return \<^verbatim>\<open>len(self._items)\<close>.\<close>

definition enqueue :: "DownloadQueue \<Rightarrow> DownloadJob \<Rightarrow> DownloadQueue \<times> nat" where
  "enqueue items job = (let items' = items @ [job]; pos = length items' in (items', pos))"

text \<open>
  \<^verbatim>\<open>get\<close>: while the list is empty the caller waits on the condition; the model returns
  \<open>None\<close> for that (the caller stays suspended and the list is untouched). Otherwise
  \<^verbatim>\<open>self._items.pop(0)\<close>.
\<close>

definition queue_get :: "DownloadQueue \<Rightarrow> (DownloadJob \<times> DownloadQueue) option" where
  "queue_get items = (case items of [] \<Rightarrow> None | job # rest \<Rightarrow> Some (job, rest))"

definition snapshot :: "DownloadQueue \<Rightarrow> DownloadJob list" where
  "snapshot items = items"

text \<open>
  A history of completed queue calls: producers call \<^verbatim>\<open>enqueue\<close>, observers call
  \<^verbatim>\<open>snapshot\<close>, the single consumer calls \<^verbatim>\<open>get\<close>. The state is the waiting list
  together with the jobs the consumer has received so far, oldest first.
\<close>

datatype queue_call = Enqueue DownloadJob | Get | Snapshot

fun queue_step :: "queue_call \<Rightarrow> DownloadQueue \<times> DownloadJob list \<Rightarrow> DownloadQueue \<times> DownloadJob list" where
  "queue_step (Enqueue job) (items, received) = (fst (enqueue items job), received)"
| "queue_step Get (items, received) =
     (case queue_get items of
        None \<Rightarrow> (items, received)
      | Some (job, rest) \<Rightarrow> (rest, received @ [job]))"
| "queue_step Snapshot (items, received) = (items, received)"

fun queue_run :: "queue_call list \<Rightarrow> DownloadQueue \<times> DownloadJob list \<Rightarrow> DownloadQueue \<times> DownloadJob list" where
  "queue_run [] s = s"
| "queue_run (c # cs) s = queue_run cs (queue_step c s)"

fun enqueued :: "queue_call list \<Rightarrow> DownloadJob list" where
  "enqueued [] = []"
| "enqueued (Enqueue job # cs) = job # enqueued cs"
| "enqueued (c # cs) = enqueued cs"


section \<open>Text helpers\<close>

text \<open>
  Python's \<^verbatim>\<open>str(n)\<close> and \<^verbatim>\<open>f"{n}"\<close> for an integer: decimal digits, a minus sign
  for a negative number.
\<close>

definition digit_char :: "nat \<Rightarrow> char" where
  "digit_char d = char_of (48 + d)"

function str_nat :: "nat \<Rightarrow> string" where
  "str_nat n = (if n < 10 then [digit_char n] else str_nat (n div 10) @ [digit_char (n mod 10)])"
  by pat_completeness auto
termination
  by (relation "measure id") auto

declare str_nat.simps [simp del]

definition str_int :: "int \<Rightarrow> string" where
  "str_int i = (if i < 0 then CHR ''-'' # str_nat (nat (- i)) else str_nat (nat i))"

text \<open>The format \<^verbatim>\<open>{n:02d}\<close>: at least two characters, padded with zeros after the sign.\<close>

definition fmt_02d :: "int \<Rightarrow> string" where
  "fmt_02d i =
     (if i < 0 then str_int i
      else if i < 10 then CHR ''0'' # str_int i
      else str_int i)"

text \<open>\<^verbatim>\<open>html.escape\<close> (quotes included) and \<^verbatim>\<open>italic\<close> of app/telegram/ui.py.\<close>

fun html_escape :: "string \<Rightarrow> string" where
  "html_escape [] = []"
| "html_escape (c # cs) =
     (if c = CHR ''&'' then ''&amp;''
      else if c = CHR ''<'' then ''&lt;''
      else if c = CHR ''>'' then ''&gt;''
      else if c = CHR 0x22 then ''&quot;''
      else if c = CHR 0x27 then ''&#x27;''
      else [c]) @ html_escape cs"

definition italic :: "string \<Rightarrow> string" where
  "italic text = ''<i>'' @ html_escape text @ ''</i>''"

text \<open>
  Python's \<^verbatim>\<open>int(s)\<close> on the decimal forms the keyboards of this bot produce: an optional
  sign followed by one or more ASCII digits. \<open>None\<close> stands for \<^verbatim>\<open>ValueError\<close>.
\<close>

definition is_digit :: "char \<Rightarrow> bool" where
  "is_digit c = ((48::nat) \<le> of_char c \<and> (of_char c :: nat) \<le> 57)"

definition digits_value :: "string \<Rightarrow> nat" where
  "digits_value ds = foldl (\<lambda>acc c. 10 * acc + ((of_char c :: nat) - 48)) 0 ds"

definition parse_int :: "string \<Rightarrow> int option" where
  "parse_int s =
     (let (neg, ds) =
        (case s of
           [] \<Rightarrow> (False, [])
         | c # cs \<Rightarrow> if c = CHR ''-'' then (True, cs) else if c = CHR ''+'' then (False, cs) else (False, s))
      in if ds \<noteq> [] \<and> list_all is_digit ds
         then Some (if neg then - int (digits_value ds) else int (digits_value ds))
         else None)"

text \<open>\<^verbatim>\<open>s.split(":", 2)\<close> unpacked into three names; \<open>None\<close> when it yields fewer parts.\<close>

definition split_first :: "string \<Rightarrow> (string \<times> string) option" where
  "split_first s =
     (if CHR '':'' \<in> set s
      then Some (takeWhile (\<lambda>c. c \<noteq> CHR '':'') s, tl (dropWhile (\<lambda>c. c \<noteq> CHR '':'') s))
      else None)"

definition split_colon2 :: "string \<Rightarrow> (string \<times> string \<times> string) option" where
  "split_colon2 s =
     (case split_first s of
        None \<Rightarrow> None
      | Some (a, r) \<Rightarrow>
          (case split_first r of
             None \<Rightarrow> None
           | Some (b, c) \<Rightarrow> Some (a, b, c)))"

section \<open>Selection session store (app/state.py)\<close>

record PlaylistEntry =
  index :: int
  title :: string
  entry_url :: string
  duration_sec :: "int option"

text \<open>
  \<^verbatim>\<open>created_at\<close> is a \<^verbatim>\<open>time.time()\<close> reading. Clock readings and durations are
  modelled as real numbers; every \<^verbatim>\<open>time.time()\<close> call of the source is an argument
  \<open>now\<close> of the model.
\<close>

record PendingSelection =
  sel_chat_id :: int
  user_id :: int
  url :: string
  playlist_entries :: "PlaylistEntry list"
  selected_indices :: "int set"
  heights :: "int list"
  selected_height :: "int option"
  created_at :: real

record InMemoryState =
  pending :: "string \<rightharpoonup> PendingSelection"
  ttl_sec :: real

text \<open>\<^verbatim>\<open>create\<close>: the token comes from \<^verbatim>\<open>secrets.token_hex(8)\<close>, an argument here.\<close>

definition state_create :: "InMemoryState \<Rightarrow> string \<Rightarrow> PendingSelection \<Rightarrow> string \<times> InMemoryState" where
  "state_create st token p = (token, st\<lparr>pending := (pending st)(token \<mapsto> p)\<rparr>)"

definition state_get :: "real \<Rightarrow> InMemoryState \<Rightarrow> string \<Rightarrow> PendingSelection option \<times> InMemoryState" where
  "state_get now st token =
     (case pending st token of
        None \<Rightarrow> (None, st)
      | Some p \<Rightarrow>
          if now - created_at p > ttl_sec st
          then (None, st\<lparr>pending := (pending st)(token := None)\<rparr>)
          else (Some p, st))"

definition state_pop :: "real \<Rightarrow> InMemoryState \<Rightarrow> string \<Rightarrow> PendingSelection option \<times> InMemoryState" where
  "state_pop now st token =
     (case pending st token of
        None \<Rightarrow> (None, st)
      | Some p \<Rightarrow>
          if now - created_at p > ttl_sec st
          then (None, st\<lparr>pending := (pending st)(token := None)\<rparr>)
          else (pending st token, st\<lparr>pending := (pending st)(token := None)\<rparr>))"

section \<open>Double-precision arithmetic\<close>

text \<open>
  A Python \<^verbatim>\<open>float\<close> is an IEEE 754 binary64 number. A finite float is a real number,
  and an arithmetic operation on floats returns the exact result rounded to the nearest
  float, ties going to the even significand. \<open>fl64\<close> is that rounding, for results in the
  range of the finite floats (overflow to infinity, infinities and NaN are not modelled).
  \<open>ilog2 x\<close> is the integer part of the binary logarithm of \<open>x \<ge> 1\<close>, and \<open>clog2 y\<close> the
  least \<open>k\<close> with \<open>y \<le> 2 ^ k\<close> for \<open>y \<ge> 1\<close>; together they give the binary exponent
  of a positive number, which is kept at the least normal exponent in the subnormal range.
\<close>

function ilog2 :: "real \<Rightarrow> int" where
  "ilog2 x = (if x < 2 then 0 else 1 + ilog2 (x / 2))"
  by pat_completeness auto
termination
proof (relation "measure (\<lambda>x. nat \<lfloor>x\<rfloor>)")
  show "wf (measure (\<lambda>x. nat \<lfloor>x\<rfloor>))" by simp
next
  fix x :: real
  assume "\<not> x < 2"
  then have "x / 2 \<le> x - 1" by simp
  then have "\<lfloor>x / 2\<rfloor> \<le> \<lfloor>x - 1\<rfloor>" by (rule floor_mono)
  moreover have "\<lfloor>x - 1\<rfloor> = \<lfloor>x\<rfloor> - 1" by simp
  moreover from \<open>\<not> x < 2\<close> have "2 \<le> \<lfloor>x\<rfloor>" by (simp add: le_floor_iff)
  ultimately show "(x / 2, x) \<in> measure (\<lambda>x. nat \<lfloor>x\<rfloor>)" by simp
qed

declare ilog2.simps [simp del]

function clog2 :: "real \<Rightarrow> int" where
  "clog2 y = (if y \<le> 1 then 0 else 1 + clog2 (y / 2))"
  by pat_completeness auto
termination
proof (relation "measure (\<lambda>y. nat \<lceil>y\<rceil>)")
  show "wf (measure (\<lambda>y. nat \<lceil>y\<rceil>))" by simp
next
  fix y :: real
  assume a: "\<not> y \<le> 1"
  show "(y / 2, y) \<in> measure (\<lambda>y. nat \<lceil>y\<rceil>)"
  proof (cases "y \<le> 2")
    case True
    with a have "\<lceil>y / 2\<rceil> = 1" by (simp add: ceiling_eq_iff)
    moreover from a have "2 \<le> \<lceil>y\<rceil>" by (simp add: le_ceiling_iff)
    ultimately show ?thesis by simp
  next
    case False
    then have "y / 2 \<le> y - 1" by simp
    then have "\<lceil>y / 2\<rceil> \<le> \<lceil>y - 1\<rceil>" by (rule ceiling_mono)
    moreover have "\<lceil>y - 1\<rceil> = \<lceil>y\<rceil> - 1" by simp
    moreover from a have "2 \<le> \<lceil>y\<rceil>" by (simp add: le_ceiling_iff)
    ultimately show ?thesis by simp
  qed
qed

declare clog2.simps [simp del]

definition exponent :: "real \<Rightarrow> int" where
  "exponent x = (if 1 \<le> x then ilog2 x else - clog2 (1 / x))"

definition pow2 :: "int \<Rightarrow> real" where
  "pow2 k = (if 0 \<le> k then 2 ^ nat k else 1 / 2 ^ nat (- k))"

definition round_half_even :: "real \<Rightarrow> int" where
  "round_half_even x =
     (let f = \<lfloor>x\<rfloor>; r = x - of_int f
      in if r < 1 / 2 then f else if 1 / 2 < r then f + 1 else if even f then f else f + 1)"

definition fl64 :: "real \<Rightarrow> real" where
  "fl64 x =
     (if x = 0 then 0
      else let a = \<bar>x\<bar>;
               e = max (exponent a) (- 1022);
               ulp = pow2 (e - 52);
               m = round_half_even (a / ulp)
           in if x < 0 then - (of_int m * ulp) else of_int m * ulp)"

definition add64 :: "real \<Rightarrow> real \<Rightarrow> real" where
  "add64 a b = fl64 (a + b)"

definition sub64 :: "real \<Rightarrow> real \<Rightarrow> real" where
  "sub64 a b = fl64 (a - b)"

definition mul64 :: "real \<Rightarrow> real \<Rightarrow> real" where
  "mul64 a b = fl64 (a * b)"

definition div64 :: "real \<Rightarrow> real \<Rightarrow> real" where
  "div64 a b = fl64 (a / b)"

text \<open>
  Python's \<^verbatim>\<open>sum\<close> over floats, as CPython up to 3.11 computes it: rounded additions from
  left to right, starting from 0. (From 3.12 on \<^verbatim>\<open>sum\<close> compensates the rounding errors;
  the result is the same for up to two summands and whenever no addition rounds.)
\<close>

definition sum64 :: "real list \<Rightarrow> real" where
  "sum64 xs = foldl add64 0 xs"

text \<open>A number that is a float, and a list all of whose partial sums are floats.\<close>

definition exact64 :: "real \<Rightarrow> bool" where
  "exact64 x = (fl64 x = x)"

definition sums_exact :: "real list \<Rightarrow> bool" where
  "sums_exact xs = list_all (\<lambda>n. exact64 (sum_list (take n xs))) [0..<Suc (length xs)]"

section \<open>Progress aggregation (the hook of download\_urls, app/downloader.py)\<close>

text \<open>
  The hook receives a loosely typed dictionary. (It first hands it to the optional
  \<^verbatim>\<open>raw_progress_hook\<close>, whose failures it ignores; that call is not modelled.)
  \<open>pyval\<close> has the kinds of value the hook tells apart: a missing key or \<^verbatim>\<open>None\<close>, a
  number (\<^verbatim>\<open>int\<close> or \<^verbatim>\<open>float\<close>), a string. A number is the real number it denotes;
  \<^verbatim>\<open>float(x)\<close> and every arithmetic operation of the hook round with \<open>fl64\<close>.
\<close>

datatype pyval = PNone | PNum real | PStr string

definition truthy :: "pyval \<Rightarrow> bool" where
  "truthy v = (case v of PNone \<Rightarrow> False | PNum x \<Rightarrow> x \<noteq> 0 | PStr s \<Rightarrow> s \<noteq> [])"

definition py_or :: "pyval \<Rightarrow> pyval \<Rightarrow> pyval" where
  "py_or a b = (if truthy a then a else b)"

text \<open>\<^verbatim>\<open>int(x)\<close> of a float: truncation towards zero.\<close>

definition py_int :: "real \<Rightarrow> int" where
  "py_int x = (if x < 0 then \<lceil>x\<rceil> else \<lfloor>x\<rfloor>)"

record progress =
  status :: pyval
  filename :: pyval
  downloaded_bytes :: pyval
  total_bytes :: pyval
  total_bytes_estimate :: pyval
  percent_str :: pyval

text \<open>
  The closure variables of \<^verbatim>\<open>download_urls\<close> that the hook shares with its helpers.
  The two dictionaries are association lists in insertion order, written with
  \<open>AList.update\<close> (replace in place, or append a new key) and read with \<open>map_of\<close>.
\<close>

record hook_state =
  last_percent :: int
  processing_announced :: bool
  file_downloaded :: "(string \<times> real) list"
  file_total :: "(string \<times> real) list"

definition hook_init :: hook_state where
  "hook_init = \<lparr>last_percent = - 1, processing_announced = False,
                 file_downloaded = [], file_total = []\<rparr>"

text \<open>
  A call \<^verbatim>\<open>progress_cb(phase, percent)\<close> is an emission. \<open>has_cb\<close> says whether
  \<^verbatim>\<open>progress_cb\<close> is a callback (the worker passes one) or \<^verbatim>\<open>None\<close>.
\<close>

type_synonym emission = "string \<times> real option"

definition emit_processing :: "bool \<Rightarrow> hook_state \<Rightarrow> hook_state \<times> emission list" where
  "emit_processing has_cb st =
     (if \<not> has_cb then (st, [])
      else if processing_announced st then (st, [])
      else (st\<lparr>processing_announced := True\<rparr>, [(''processing'', None)]))"

definition emit_download_percent :: "bool \<Rightarrow> hook_state \<Rightarrow> real \<Rightarrow> hook_state \<times> emission list" where
  "emit_download_percent has_cb st p =
     (if \<not> has_cb then (st, [])
      else let pi = py_int (max 0 (min 100 p))
           in if pi = last_percent st then (st, [])
              else (st\<lparr>last_percent := pi\<rparr>, [(''download'', Some (of_int pi))]))"

text \<open>The hook's key: the file name when it is a non-empty string.\<close>

definition stream_key :: "progress \<Rightarrow> string" where
  "stream_key progress =
     (case filename progress of
        PStr s \<Rightarrow> if s \<noteq> [] then s else ''__unknown__''
      | _ \<Rightarrow> ''__unknown__'')"

text \<open>The branch \<^verbatim>\<open>status == "finished"\<close>.\<close>

definition store_finished :: "hook_state \<Rightarrow> progress \<Rightarrow> hook_state" where
  "store_finished st progress =
     (let key = stream_key progress;
          total = py_or (total_bytes progress) (total_bytes_estimate progress)
      in case total of
           PNum t \<Rightarrow>
             if t > 0
             then st\<lparr>file_total := AList.update key (fl64 t) (file_total st),
                     file_downloaded := AList.update key (fl64 t) (file_downloaded st)\<rparr>
             else st
         | _ \<Rightarrow> st)"

text \<open>The two dictionary writes of the branch \<^verbatim>\<open>status == "downloading"\<close>.\<close>

definition store_downloading :: "hook_state \<Rightarrow> progress \<Rightarrow> hook_state" where
  "store_downloading st progress =
     (let key = stream_key progress;
          downloaded = downloaded_bytes progress;
          total = py_or (total_bytes progress) (total_bytes_estimate progress);
          st1 = (case downloaded of
                   PNum d \<Rightarrow> if d \<ge> 0
                             then st\<lparr>file_downloaded := AList.update key (fl64 d) (file_downloaded st)\<rparr>
                             else st
                 | _ \<Rightarrow> st)
      in case total of
           PNum t \<Rightarrow> if t > 0
                     then st1\<lparr>file_total := AList.update key (fl64 t) (file_total st1)\<rparr>
                     else st1
         | _ \<Rightarrow> st1)"

text \<open>The loop \<^verbatim>\<open>for k, t in file_total.items()\<close> that accumulates \<^verbatim>\<open>sum_done\<close>.\<close>

fun sum_done_loop :: "(string \<times> real) list \<Rightarrow> (string \<times> real) list \<Rightarrow> real \<Rightarrow> real" where
  "sum_done_loop [] downloaded sum_done = sum_done"
| "sum_done_loop ((k, t) # items) downloaded sum_done =
     (if t \<le> 0 then sum_done_loop items downloaded sum_done
      else let d = (case map_of downloaded k of Some d \<Rightarrow> d | None \<Rightarrow> 0);
               d = (if d < 0 then 0 else d);
               d = (if d > t then t else d)
           in sum_done_loop items downloaded (add64 sum_done d))"

text \<open>
  \<^verbatim>\<open>percent_str.strip().strip("%")\<close>; Python's \<^verbatim>\<open>float\<close> of the result is the
  argument \<open>parse_float\<close> of the hook (\<open>None\<close> for \<^verbatim>\<open>ValueError\<close>).
\<close>

definition is_space :: "char \<Rightarrow> bool" where
  "is_space c = (c \<in> set [CHR '' '', CHR 0x09, CHR 0x0A, CHR 0x0B, CHR 0x0C, CHR 0x0D,
                            CHR 0x1C, CHR 0x1D, CHR 0x1E, CHR 0x1F])"

definition strip_chars :: "(char \<Rightarrow> bool) \<Rightarrow> string \<Rightarrow> string" where
  "strip_chars P s = rev (dropWhile P (rev (dropWhile P s)))"

definition hook :: "bool \<Rightarrow> (string \<Rightarrow> real option) \<Rightarrow> hook_state \<Rightarrow> progress
                      \<Rightarrow> hook_state \<times> emission list" where
  "hook has_cb parse_float st progress =
     (if status progress = PStr ''postprocessing'' \<or> status progress = PStr ''processing''
      then emit_processing has_cb st
      else if status progress = PStr ''finished'' then (store_finished st progress, [])
      else if status progress \<noteq> PStr ''downloading'' then (st, [])
      else
        let st1 = store_downloading st progress;
            totals = filter (\<lambda>t. t > 0) (map snd (file_total st1))
        in if totals \<noteq> []
           then let sum_total = sum64 totals;
                    sum_done = sum_done_loop (file_total st1) (file_downloaded st1) 0
                in emit_download_percent has_cb st1 (div64 (mul64 100 sum_done) sum_total)
           else (case percent_str progress of
                   PStr s \<Rightarrow>
                     (case parse_float (strip_chars (\<lambda>c. c = CHR ''%'') (strip_chars is_space s)) of
                        None \<Rightarrow> (st1, [])
                      | Some p \<Rightarrow>
                          if p < of_int (last_percent st1) then (st1, [])
                          else emit_download_percent has_cb st1 p)
                 | _ \<Rightarrow> (st1, [])))"

text \<open>The hook called on a sequence of raw events of one job, with all its emissions.\<close>

fun hook_run :: "bool \<Rightarrow> (string \<Rightarrow> real option) \<Rightarrow> hook_state \<Rightarrow> progress list
                   \<Rightarrow> hook_state \<times> emission list" where
  "hook_run has_cb parse_float st [] = (st, [])"
| "hook_run has_cb parse_float st (e # es) =
     (let (st1, out1) = hook has_cb parse_float st e;
          (st2, out2) = hook_run has_cb parse_float st1 es
      in (st2, out1 @ out2))"

text \<open>The percents of the download emissions among a list of emissions.\<close>

definition download_percents :: "emission list \<Rightarrow> real option list" where
  "download_percents out = map snd (filter (\<lambda>x. fst x = ''download'') out)"

text \<open>
  The aggregate percent as the specification words it, in exact arithmetic: 100 times the
  sum, over the streams with a known (recorded, positive) total, of the downloaded bytes
  clamped into the interval from 0 to that stream's total, divided by the sum of those
  totals.
\<close>

definition spec_aggregate_percent :: "(string \<rightharpoonup> real) \<Rightarrow> (string \<rightharpoonup> real) \<Rightarrow> real" where
  "spec_aggregate_percent done_of total_of =
     100 * (\<Sum>k \<in> {k \<in> dom total_of. 0 < the (total_of k)}.
              max 0 (min (the (total_of k)) (case done_of k of Some d \<Rightarrow> d | None \<Rightarrow> 0)))
         / (\<Sum>k \<in> {k \<in> dom total_of. 0 < the (total_of k)}. the (total_of k))"

text \<open>Raw events as yt-dlp sends them for a transfer in progress and for a finished one.\<close>

definition downloading_event :: "string \<Rightarrow> real \<Rightarrow> real \<Rightarrow> progress" where
  "downloading_event name d t =
     \<lparr>status = PStr ''downloading'', filename = PStr name, downloaded_bytes = PNum d,
      total_bytes = PNum t, total_bytes_estimate = PNone, percent_str = PNone\<rparr>"

definition finished_event :: "string \<Rightarrow> real \<Rightarrow> progress" where
  "finished_event name t =
     \<lparr>status = PStr ''finished'', filename = PStr name, downloaded_bytes = PNum t,
      total_bytes = PNum t, total_bytes_estimate = PNone, percent_str = PNone\<rparr>"

text \<open>A transfer in progress of which yt-dlp knows only an estimated total.\<close>

definition estimate_event :: "string \<Rightarrow> real \<Rightarrow> real \<Rightarrow> progress" where
  "estimate_event fname d t =
     \<lparr>status = PStr ''downloading'', filename = PStr fname, downloaded_bytes = PNum d,
      total_bytes = PNone, total_bytes_estimate = PNum t, percent_str = PNone\<rparr>"

text \<open>
  What every state reached by the hook satisfies: the keys of \<^verbatim>\<open>file_total\<close> are distinct
  (it is a dictionary).
\<close>

definition hook_inv :: "hook_state \<Rightarrow> bool" where
  "hook_inv st = distinct (map fst (file_total st))"

text \<open>The streams with a known total, in the order of the dictionary.\<close>

definition known_totals :: "hook_state \<Rightarrow> (string \<times> real) list" where
  "known_totals st = filter (\<lambda>(k, t). 0 < t) (file_total st)"

text \<open>One stream's contribution to \<^verbatim>\<open>sum_done\<close>.\<close>

definition clamped :: "(string \<times> real) list \<Rightarrow> string \<Rightarrow> real \<Rightarrow> real" where
  "clamped fd k t = max 0 (min t (case map_of fd k of Some d \<Rightarrow> d | None \<Rightarrow> 0))"

text \<open>The statuses the hook treats as post-transfer processing.\<close>

definition is_processing_event :: "progress \<Rightarrow> bool" where
  "is_processing_event e = (status e = PStr ''postprocessing'' \<or> status e = PStr ''processing'')"

section \<open>Selection callbacks (app/telegram/handlers.py)\<close>

text \<open>
  The parts of a Telegram update the callbacks read: the id of \<^verbatim>\<open>query.from_user\<close>
  (\<open>None\<close> when the field is absent), the chat id and message id of \<^verbatim>\<open>query.message\<close>,
  and \<^verbatim>\<open>query.data\<close>.
\<close>

record CallbackQuery =
  from_user :: "int option"
  message :: "(int \<times> int) option"
  data :: "string option"

record Update =
  callback_query :: "CallbackQuery option"

definition validate_selection_owner :: "Update \<Rightarrow> PendingSelection \<Rightarrow> bool" where
  "validate_selection_owner update sel =
     (case callback_query update of
        None \<Rightarrow> False
      | Some query \<Rightarrow>
          if (case from_user query of None \<Rightarrow> False | Some uid \<Rightarrow> uid \<noteq> user_id sel)
          then False
          else if (case message query of None \<Rightarrow> True | Some (cid, mid) \<Rightarrow> cid \<noteq> sel_chat_id sel)
          then False
          else True)"

text \<open>
  The two stores of \<^verbatim>\<open>Services\<close> the callbacks work on. Calls to the Telegram API are
  collected in a log; a call that raises would end the handler at that call.
\<close>

record Services =
  state :: InMemoryState
  queue :: DownloadQueue

datatype bot_call =
    Answer "string option" bool
  | EditMessageText string
  | EditMessageReplyMarkup int

datatype handler_exn = ValueError | AttributeError

type_synonym handler_result = "Services \<times> bot_call list \<times> handler_exn option"

text \<open>
  \<^verbatim>\<open>enqueue_from_pending\<close>. \<^verbatim>\<open>next(iter(sorted(selected_indices)), None)\<close> is the least
  chosen index when there is one. Starting the worker task is outside the model.
\<close>

definition enqueue_from_pending :: "real \<Rightarrow> Services \<Rightarrow> string \<Rightarrow> int \<Rightarrow> Services \<times> bot_call list" where
  "enqueue_from_pending now services token msg_id =
     (let (popped, st') = state_pop now (state services) token;
          services1 = services\<lparr>state := st'\<rparr>
      in case popped of
           None \<Rightarrow> (services1, [])
         | Some sel \<Rightarrow>
             let items = (if playlist_entries sel \<noteq> []
                          then Some (str_int (if selected_indices sel = {} then 1
                                              else Min (selected_indices sel)))
                          else None);
                 job = \<lparr>chat_id = sel_chat_id sel, request_url = url sel,
                        urls = [url sel], max_height = selected_height sel,
                        playlist_items = items, progress_message_id = msg_id\<rparr>;
                 (items', pos) = enqueue (queue services1) job
             in (services1\<lparr>queue := items'\<rparr>,
                 [EditMessageText (italic (''Added to the queue. Position: '' @ str_nat pos
                                           @ ''.'' @ [CHR 0x0A] @ ''Please wait...''))]))"

text \<open>The steps both callbacks take once the owner is validated and a job is to be queued.\<close>

definition enqueue_for_query :: "real \<Rightarrow> Services \<Rightarrow> string \<Rightarrow> CallbackQuery \<Rightarrow> bot_call list
                                   \<Rightarrow> handler_result" where
  "enqueue_for_query now services token query calls =
     (case message query of
        None \<Rightarrow> (services, calls, Some AttributeError)
      | Some (cid, mid) \<Rightarrow>
          (let (services', calls') = enqueue_from_pending now services token mid
           in (services', calls @ calls', None)))"

definition on_playlist_callback :: "real \<Rightarrow> real \<Rightarrow> Services \<Rightarrow> Update \<Rightarrow> handler_result" where
  "on_playlist_callback now now' services update =
     (case callback_query update of
        None \<Rightarrow> (services, [], None)
      | Some query \<Rightarrow>
      (case data query of
        None \<Rightarrow> (services, [], None)
      | Some d \<Rightarrow>
      (case split_colon2 d of
        None \<Rightarrow> (services, [Answer None False], Some ValueError)
      | Some (pre, token, action) \<Rightarrow>
          let (found, st') = state_get now (state services) token;
              services1 = services\<lparr>state := st'\<rparr>
          in case found of
               None \<Rightarrow>
                 (services1,
                  [Answer None False,
                   EditMessageText ''This selection session has expired. Please send the link again.''],
                  None)
             | Some sel \<Rightarrow>
                 if \<not> validate_selection_owner update sel
                 then (services1,
                       [Answer None False, Answer (Some ''This selection is not for you.'') True], None)
                 else if action = ''noop'' then (services1, [Answer None False], None)
                 else if action = ''all'' \<or> action = ''none''
                 then (services1,
                       [Answer None False, Answer (Some ''You can only select one file now'') True], None)
                 else if action = ''done''
                 then (if selected_indices sel = {}
                       then (services1,
                             [Answer None False, Answer (Some ''Select a file first'') True], None)
                       else if length (heights sel) \<ge> 2
                       then (services1,
                             [Answer None False, EditMessageText (italic ''Choose download quality:'')],
                             None)
                       else enqueue_for_query now' services1 token query [Answer None False])
                 else if prefix ''p'' action
                 then (case parse_int (tl action) of
                         None \<Rightarrow> (services1, [Answer None False], Some ValueError)
                       | Some page \<Rightarrow>
                           (services1, [Answer None False, EditMessageReplyMarkup page], None))
                 else if prefix ''t'' action
                 then (case parse_int (tl action) of
                         None \<Rightarrow> (services1, [Answer None False], Some ValueError)
                       | Some idx \<Rightarrow>
                           let services2 = services1\<lparr>state := (state services1)
                                 \<lparr>pending := (pending (state services1))
                                      (token \<mapsto> sel\<lparr>selected_indices := {idx}\<rparr>)\<rparr>\<rparr>
                           in if length (heights sel) \<ge> 2
                              then (services2,
                                    [Answer None False,
                                     EditMessageText (italic ''Choose download quality:'')], None)
                              else enqueue_for_query now' services2 token query [Answer None False])
                 else (services1, [Answer None False], None))))"

definition on_quality_callback :: "real \<Rightarrow> real \<Rightarrow> Services \<Rightarrow> Update \<Rightarrow> handler_result" where
  "on_quality_callback now now' services update =
     (case callback_query update of
        None \<Rightarrow> (services, [], None)
      | Some query \<Rightarrow>
      (case data query of
        None \<Rightarrow> (services, [], None)
      | Some d \<Rightarrow>
      (case split_colon2 d of
        None \<Rightarrow> (services, [Answer None False], Some ValueError)
      | Some (pre, token, action) \<Rightarrow>
          let (found, st') = state_get now (state services) token;
              services1 = services\<lparr>state := st'\<rparr>
          in case found of
               None \<Rightarrow>
                 (services1,
                  [Answer None False,
                   EditMessageText ''This selection session has expired. Please send the link again.''],
                  None)
             | Some sel \<Rightarrow>
                 if \<not> validate_selection_owner update sel
                 then (services1,
                       [Answer None False, Answer (Some ''This selection is not for you.'') True], None)
                 else if action = ''best''
                 then (let services2 = services1\<lparr>state := (state services1)
                             \<lparr>pending := (pending (state services1))
                                  (token \<mapsto> sel\<lparr>selected_height := None\<rparr>)\<rparr>\<rparr>
                       in enqueue_for_query now' services2 token query
                            [Answer None False, Answer (Some ''Selected: best'') False])
                 else if prefix ''h'' action
                 then (case parse_int (tl action) of
                         None \<Rightarrow> (services1, [Answer None False], Some ValueError)
                       | Some h \<Rightarrow>
                           let services2 = services1\<lparr>state := (state services1)
                                 \<lparr>pending := (pending (state services1))
                                      (token \<mapsto> sel\<lparr>selected_height := Some h\<rparr>)\<rparr>\<rparr>
                           in enqueue_for_query now' services2 token query
                                [Answer None False,
                                 Answer (Some (''Selected: up to '' @ str_int h @ ''p'')) False])
                 else (services1, [Answer None False], None))))"

text \<open>
  A store with one pending selection, owned by user 3 in chat 7 and offering two qualities,
  and a click on the second playlist entry sent by a given user in a given chat.
\<close>

definition sample_selection :: PendingSelection where
  "sample_selection =
     \<lparr>sel_chat_id = 7, user_id = 3, url = ''http://x/a'',
      playlist_entries = [\<lparr>index = 1, title = ''one'', entry_url = ''http://x/a/1'', duration_sec = None\<rparr>,
                          \<lparr>index = 2, title = ''two'', entry_url = ''http://x/a/2'', duration_sec = Some 61\<rparr>],
      selected_indices = {}, heights = [360, 720], selected_height = None, created_at = 100\<rparr>"

definition sample_services :: Services where
  "sample_services =
     \<lparr>state = \<lparr>pending = [''ab12'' \<mapsto> sample_selection], ttl_sec = 60\<rparr>, queue = []\<rparr>"

definition sample_click :: "int \<Rightarrow> int \<Rightarrow> Update" where
  "sample_click uid cid =
     \<lparr>callback_query = Some \<lparr>from_user = Some uid, message = Some (cid, 55),
                              data = Some ''pl:ab12:t2''\<rparr>\<rparr>"

section \<open>Progress reporter (progress\_updater, app/telegram/worker.py)\<close>

text \<open>
  The local variables of \<^verbatim>\<open>progress_updater\<close>. One pass of its loop is one wake-up:
  the queue delivered \<^verbatim>\<open>(new_phase, percent)\<close>, or \<^verbatim>\<open>wait_for\<close> timed out after the
  stall interval; both carry the \<^verbatim>\<open>time.monotonic()\<close> reading taken right after. The
  result of a pass is the new state and the text handed to \<^verbatim>\<open>safe_edit_italic\<close>, if
  any (that call swallows its own failures). Clock readings are floats, and their
  differences round with \<open>fl64\<close>.
\<close>

record reporter_state =
  last_sent_percent :: int
  last_sent_time :: real
  phase :: string
  last_progress_time :: real
  last_seen_percent :: int

definition reporter_init :: "real \<Rightarrow> reporter_state" where
  "reporter_init start_time =
     \<lparr>last_sent_percent = - 1, last_sent_time = 0, phase = ''download'',
      last_progress_time = start_time, last_seen_percent = 0\<rparr>"

datatype wakeup = Received string "real option" real | TimedOut real

definition no_progress_for :: "int \<Rightarrow> string" where
  "no_progress_for stalled =
     (let stalled_min = stalled div 60; stalled_sec = stalled mod 60
      in ''(no progress for '' @ str_int stalled_min @ '':'' @ fmt_02d stalled_sec @ '')'')"

fun progress_step :: "real \<Rightarrow> reporter_state \<Rightarrow> wakeup \<Rightarrow> reporter_state \<times> string option" where
  "progress_step min_interval st (Received new_phase percent now) =
     (let st1 = (if new_phase \<noteq> [] then st\<lparr>phase := new_phase\<rparr> else st)
      in if phase st1 \<noteq> ''download''
         then (if sub64 now (last_sent_time st1) < min_interval then (st1, None)
               else (st1\<lparr>last_progress_time := now, last_sent_time := now\<rparr>, Some ''Processing...''))
         else (case percent of
                 None \<Rightarrow> (st1, None)
               | Some p \<Rightarrow>
                   let percent_int = py_int p
                   in if percent_int = last_sent_percent st1 then (st1, None)
                      else if sub64 now (last_sent_time st1) < min_interval then (st1, None)
                      else (st1\<lparr>last_seen_percent := percent_int, last_progress_time := now,
                                last_sent_percent := percent_int, last_sent_time := now\<rparr>,
                            Some (''Downloading... '' @ str_int percent_int @ ''%''))))"
| "progress_step min_interval st (TimedOut now) =
     (if sub64 now (last_sent_time st) < min_interval then (st, None)
      else let stalled = py_int (sub64 now (last_progress_time st));
               text = (if phase st \<noteq> ''download''
                       then ''Processing... '' @ no_progress_for stalled
                       else if last_seen_percent st \<le> 0 then ''Downloading...''
                       else ''Downloading... '' @ str_int (last_seen_percent st) @ ''% ''
                            @ no_progress_for stalled)
           in (st\<lparr>last_sent_time := now\<rparr>, Some text))"

text \<open>The loop over a sequence of wake-ups, until the task is cancelled.\<close>

fun progress_updater :: "real \<Rightarrow> reporter_state \<Rightarrow> wakeup list \<Rightarrow> reporter_state \<times> string option list" where
  "progress_updater min_interval st [] = (st, [])"
| "progress_updater min_interval st (w # ws) =
     (let (st1, shown) = progress_step min_interval st w;
          (st2, rest) = progress_updater min_interval st1 ws
      in (st2, shown # rest))"

section \<open>Worker loop (app/telegram/worker\_loop.py)\<close>

text \<open>
  Exceptions as values. \<open>CancelledError\<close> is the one the model has that is not an
  instance of \<^verbatim>\<open>Exception\<close>; \<open>Error name\<close> is any other instance of \<^verbatim>\<open>Exception\<close>.
\<close>

datatype exn = CancelledError | FileNotFoundError | Error string

definition is_Exception :: "exn \<Rightarrow> bool" where
  "is_Exception e = (e \<noteq> CancelledError)"

text \<open>
  A path is the list of its components below the file-system root. The file system is
  what \<^verbatim>\<open>_cleanup_session_dir\<close> sees of it: what \<^verbatim>\<open>Path.resolve\<close> returns or raises,
  the paths that exist, and the error, other than absence, that \<^verbatim>\<open>shutil.rmtree\<close> hits on
  a tree (a failing \<^verbatim>\<open>rmtree\<close> is modelled as removing nothing).
\<close>

type_synonym path = "string list"

record filesys =
  resolve :: "path \<Rightarrow> exn + path"
  entries :: "path list"
  rmtree_fault :: "path \<Rightarrow> exn option"

definition is_relative_to :: "path \<Rightarrow> path \<Rightarrow> bool" where
  "is_relative_to p other = prefix other p"

definition name :: "path \<Rightarrow> string" where
  "name p = (if p = [] then [] else last p)"

definition rmtree :: "filesys \<Rightarrow> path \<Rightarrow> exn + filesys" where
  "rmtree fs p =
     (if p \<notin> set (entries fs) then Inl FileNotFoundError
      else case rmtree_fault fs p of
             Some e \<Rightarrow> Inl e
           | None \<Rightarrow> Inr (fs\<lparr>entries := filter (\<lambda>q. \<not> prefix p q) (entries fs)\<rparr>))"

datatype cleanup_outcome =
    Deleted | RefusedOutsideRoot | RefusedNotSession | AlreadyGone | FailureLogged | Escaped

text \<open>The \<^verbatim>\<open>try\<close> block of \<^verbatim>\<open>_cleanup_session_dir\<close>.\<close>

definition cleanup_try :: "filesys \<Rightarrow> path \<Rightarrow> path \<Rightarrow> exn + (filesys \<times> cleanup_outcome)" where
  "cleanup_try fs session_dir download_root =
     (case resolve fs download_root of
        Inl e \<Rightarrow> Inl e
      | Inr root_dir \<Rightarrow>
          (case resolve fs session_dir of
             Inl e \<Rightarrow> Inl e
           | Inr sd \<Rightarrow>
               if \<not> is_relative_to sd root_dir then Inr (fs, RefusedOutsideRoot)
               else if \<not> prefix ''session-'' (name sd) then Inr (fs, RefusedNotSession)
               else (case rmtree fs sd of
                       Inl e \<Rightarrow> Inl e
                     | Inr fs' \<Rightarrow> Inr (fs', Deleted))))"

text \<open>
  The whole function with its two \<^verbatim>\<open>except\<close> clauses; the third component is the
  exception that leaves the function, if any.
\<close>

definition cleanup_session_dir :: "filesys \<Rightarrow> path \<Rightarrow> path \<Rightarrow> filesys \<times> cleanup_outcome \<times> exn option" where
  "cleanup_session_dir fs session_dir download_root =
     (case cleanup_try fs session_dir download_root of
        Inr (fs', outcome) \<Rightarrow> (fs', outcome, None)
      | Inl e \<Rightarrow>
          if e = FileNotFoundError then (fs, AlreadyGone, None)
          else if is_Exception e then (fs, FailureLogged, None)
          else (fs, Escaped, Some e))"

text \<open>
  What the collaborators of one job do: for each awaited call of the loop body, the
  exception it raises, if any, and for the two calls with a result, the result.
\<close>

record job_env =
  start_edit :: "exn option"
  ensure_session_dir :: "exn + path"
  download_urls :: "exn + path list"
  not_found_edit :: "exn option"
  completed_edit :: "exn option"
  upload_edit :: "nat \<Rightarrow> exn option"
  send_file :: "path \<Rightarrow> exn option"
  done_edit :: "exn option"
  failure_edit :: "exn option"

text \<open>\<^verbatim>\<open>safe_edit_italic\<close> swallows every \<^verbatim>\<open>Exception\<close> of the edit it wraps.\<close>

definition safe_edit_italic :: "exn option \<Rightarrow> exn option" where
  "safe_edit_italic r = (case r of None \<Rightarrow> None | Some e \<Rightarrow> if is_Exception e then None else Some e)"

text \<open>
  The variables of one pass of the loop that outlive its \<^verbatim>\<open>try\<close> block, and the
  texts of the status edits attempted so far.
\<close>

record job_state =
  session_dir :: "path option"
  job_success :: bool
  rendered :: "string list"

definition upload_label :: "nat \<Rightarrow> nat \<Rightarrow> string" where
  "upload_label idx n =
     (if n > 1
      then ''Uploading file to Telegram ('' @ str_nat idx @ ''/'' @ str_nat n @ '')''
      else ''Uploading file to Telegram'')"

text \<open>
  The loop over the produced files. A failure of \<^verbatim>\<open>p.unlink\<close> after a file was sent is
  logged and has no other effect.
\<close>

fun upload_files :: "job_env \<Rightarrow> path list \<Rightarrow> nat \<Rightarrow> nat \<Rightarrow> job_state \<Rightarrow> job_state \<times> exn option" where
  "upload_files env [] idx n s = (s, None)"
| "upload_files env (p # ps) idx n s =
     (let s1 = s\<lparr>rendered := rendered s @ [italic (upload_label idx n @ ''...'')]\<rparr>
      in case safe_edit_italic (upload_edit env idx) of
           Some e \<Rightarrow> (s1, Some e)
         | None \<Rightarrow>
             (case send_file env p of
                Some e \<Rightarrow> (s1, Some e)
              | None \<Rightarrow> upload_files env ps (idx + 1) n s1))"

text \<open>
  The inner \<^verbatim>\<open>try\<close> block of \<^verbatim>\<open>worker_loop\<close> for one job: the state it leaves and the
  exception it raises, if any. The reporter task runs beside the download and is cancelled
  when the download returns or raises; its own edits are those of \<open>progress_updater\<close>.
\<close>

definition job_try :: "job_env \<Rightarrow> DownloadJob \<Rightarrow> job_state \<times> exn option" where
  "job_try env job =
     (let s0 = \<lparr>session_dir = None, job_success = False,
                rendered = [italic ''Starting download... 0%'']\<rparr>
      in case start_edit env of
           Some e \<Rightarrow> (s0, Some e)
         | None \<Rightarrow>
      (case ensure_session_dir env of
           Inl e \<Rightarrow> (s0, Some e)
         | Inr sd \<Rightarrow>
      (let s1 = s0\<lparr>session_dir := Some sd\<rparr>
       in case download_urls env of
           Inl e \<Rightarrow> (s1, Some e)
         | Inr files \<Rightarrow>
             if files = []
             then (s1\<lparr>rendered := rendered s1 @ [''Download finished, but the file was not found.'']\<rparr>,
                   not_found_edit env)
             else
               (let s2 = s1\<lparr>rendered := rendered s1 @ [italic ''Download completed... 100%'']\<rparr>
                in case safe_edit_italic (completed_edit env) of
                     Some e \<Rightarrow> (s2, Some e)
                   | None \<Rightarrow>
                       (case upload_files env files 1 (length files) s2 of
                          (s3, Some e) \<Rightarrow> (s3, Some e)
                        | (s3, None) \<Rightarrow>
                            (s3\<lparr>job_success := True, rendered := rendered s3 @ [''Done.'']\<rparr>,
                             done_edit env))))))"

definition failure_text :: "DownloadJob \<Rightarrow> string" where
  "failure_text job =
     ''This service cannot download from this URL:'' @ [CHR 0x0A] @ request_url job
     @ [CHR 0x0A, CHR 0x0A] @ ''Please try a different link.''"

text \<open>
  One pass of the \<^verbatim>\<open>while True\<close> loop after the job was taken from the queue: the
  \<^verbatim>\<open>try\<close> block, its \<^verbatim>\<open>except\<close> clauses and the \<^verbatim>\<open>finally\<close> clause. \<open>raised\<close> is
  the exception that leaves the pass and with it the loop; \<open>None\<close> means the loop goes on
  to the next job.
\<close>

record job_result =
  final_fs :: filesys
  cleanup :: "cleanup_outcome option"
  raised :: "exn option"
  succeeded :: bool
  edits :: "string list"

definition worker_job :: "job_env \<Rightarrow> filesys \<Rightarrow> path \<Rightarrow> DownloadJob \<Rightarrow> job_result" where
  "worker_job env fs download_root job =
     (let (s, r) = job_try env job;
          (s', r') = (case r of
                        None \<Rightarrow> (s, None)
                      | Some e \<Rightarrow>
                          if \<not> is_Exception e then (s, Some e)
                          else (s\<lparr>rendered := rendered s @ [failure_text job]\<rparr>, failure_edit env))
      in case (job_success s', session_dir s') of
           (True, Some sd) \<Rightarrow>
             (let (fs', outcome, escaped) = cleanup_session_dir fs sd download_root
              in \<lparr>final_fs = fs', cleanup = Some outcome,
                  raised = (case escaped of Some e \<Rightarrow> Some e | None \<Rightarrow> r'),
                  succeeded = job_success s', edits = rendered s'\<rparr>)
         | _ \<Rightarrow>
             \<lparr>final_fs = fs, cleanup = None, raised = r', succeeded = job_success s',
              edits = rendered s'\<rparr>)"

text \<open>
  A job whose download yields one file under a fresh session directory of the root
  \<^verbatim>\<open>/data\<close>, a file system in which paths resolve to themselves and \<^verbatim>\<open>rmtree\<close> fails
  as given, and collaborators that all succeed except for the final edit, as given.
\<close>

definition sample_job :: DownloadJob where
  "sample_job = \<lparr>chat_id = 7, request_url = ''http://x/a'', urls = [''http://x/a''],
                  max_height = Some 720, playlist_items = None, progress_message_id = 55\<rparr>"

definition sample_fs :: "exn option \<Rightarrow> filesys" where
  "sample_fs fault =
     \<lparr>resolve = Inr,
      entries = [ [''data''], [''data'', ''session-20240101-000000-ab12cd34''],
                 [''data'', ''session-20240101-000000-ab12cd34'', ''a.mp4''] ],
      rmtree_fault = (\<lambda>p. fault)\<rparr>"

definition sample_env :: "exn option \<Rightarrow> job_env" where
  "sample_env done_result =
     \<lparr>start_edit = None,
      ensure_session_dir = Inr [''data'', ''session-20240101-000000-ab12cd34''],
      download_urls = Inr [ [''data'', ''session-20240101-000000-ab12cd34'', ''a.mp4''] ],
      not_found_edit = None, completed_edit = None, upload_edit = (\<lambda>i. None),
      send_file = (\<lambda>p. None), done_edit = done_result, failure_edit = None\<rparr>"

section \<open>Properties of the job queue\<close>

lemma queue_step_conserves:
  "snd (queue_step c (items, received)) @ fst (queue_step c (items, received))
     = received @ items @ enqueued [c]"
  by (cases c) (auto simp: enqueue_def queue_get_def split: list.splits)

lemma queue_run_conserves:
  "snd (queue_run cs s) @ fst (queue_run cs s) = snd s @ fst s @ enqueued cs"
proof (induction cs arbitrary: s)
  case Nil
  show ?case by simp
next
  case (Cons c cs)
  obtain items received where s: "s = (items, received)" by (cases s)
  have "enqueued (c # cs) = enqueued [c] @ enqueued cs"
    by (cases c) simp_all
  with Cons.IH [of "queue_step c s"] queue_step_conserves [of c items received] s
  show ?case by simp
qed

text \<open>
  C3. Starting from an empty queue, after any history of enqueue, get and snapshot calls
  the jobs received by the consumer followed by the jobs still waiting are exactly the
  jobs enqueued, in enqueue order: nothing is reordered, duplicated or lost. A get on a
  non-empty queue returns its oldest job and leaves the rest; enqueue and snapshot remove
  nothing.
\<close>

theorem queue_fifo:
  "snd (queue_run cs ([], [])) @ fst (queue_run cs ([], [])) = enqueued cs
   \<and> queue_get (job # rest) = Some (job, rest)
   \<and> fst (enqueue items j) = items @ [j]
   \<and> snapshot items = items
   \<and> queue_step Snapshot (items, received) = (items, received)"
  using queue_run_conserves [of cs "([], [])"]
  by (simp add: queue_get_def enqueue_def snapshot_def)

text \<open>
  C8. \<^verbatim>\<open>enqueue\<close> puts the job at the tail of the waiting list and returns the number of
  waiting jobs after the insertion, which is the 1-based index of the new job.
\<close>

theorem enqueue_position:
  "fst (enqueue items job) = items @ [job]
   \<and> snd (enqueue items job) = length items + 1
   \<and> snd (enqueue items job) = qsize (fst (enqueue items job))
   \<and> fst (enqueue items job) ! (snd (enqueue items job) - 1) = job"
  by (simp add: enqueue_def qsize_def)

section \<open>Properties of the selection session store\<close>

lemma state_pop_absent_after:
  "pending (snd (state_pop now st token)) token = None"
  by (simp add: state_pop_def split: option.splits)

text \<open>
  C4. When the stored selection's age \<open>now - created_at\<close> exceeds the TTL, both
  \<^verbatim>\<open>get\<close> and \<^verbatim>\<open>pop\<close> (the spec's take) return nothing and leave the store without
  that token (and otherwise as it was), whatever happened to the token before. Two
  successive \<^verbatim>\<open>pop\<close> calls on one token, at any two clock readings, return nothing the
  second time.
\<close>

theorem expired_lookup_purges:
  assumes "pending st token = Some p" and "now - created_at p > ttl_sec st"
  shows "state_get now st token = (None, st\<lparr>pending := (pending st)(token := None)\<rparr>)
       \<and> state_pop now st token = (None, st\<lparr>pending := (pending st)(token := None)\<rparr>)
       \<and> pending (snd (state_get now st token)) token = None
       \<and> pending (snd (state_pop now st token)) token = None
       \<and> fst (state_pop now2 (snd (state_pop now1 st1 token1)) token1) = None"
proof -
  have "fst (state_pop now2 (snd (state_pop now1 st1 token1)) token1) = None"
    using state_pop_absent_after [of now1 st1 token1] by (simp add: state_pop_def)
  with assms show ?thesis
    by (simp add: state_get_def state_pop_def)
qed

theorem expired_lookup_purges_witness:
  "(let p = \<lparr>sel_chat_id = 7, user_id = 3, url = ''http://x/a'', playlist_entries = [],
             selected_indices = {}, heights = [], selected_height = None, created_at = 100\<rparr>;
        st = \<lparr>pending = [''ab12'' \<mapsto> p], ttl_sec = 60\<rparr>
    in pending st ''ab12'' = Some p \<and> 161 - created_at p > ttl_sec st
       \<and> state_get 161 st ''ab12'' = (None, st\<lparr>pending := (pending st)(''ab12'' := None)\<rparr>)
       \<and> state_pop 161 st ''ab12'' = (None, st\<lparr>pending := (pending st)(''ab12'' := None)\<rparr>)
       \<and> fst (state_pop 130 (snd (state_pop 120 st ''ab12'')) ''ab12'') = None)"
  using expired_lookup_purges
    [of "\<lparr>pending = [''ab12'' \<mapsto> \<lparr>sel_chat_id = 7, user_id = 3, url = ''http://x/a'',
            playlist_entries = [], selected_indices = {}, heights = [], selected_height = None,
            created_at = 100\<rparr>], ttl_sec = 60\<rparr>"
        "''ab12''" _ 161 130 120 _ "''ab12''"]
  by (simp add: Let_def)


section \<open>Properties of the progress aggregation\<close>

lemma hook_processing:
  "is_processing_event e \<Longrightarrow> hook cb pf st e = emit_processing cb st"
  by (auto simp: hook_def is_processing_event_def)

lemma hook_other_cases:
  assumes "\<not> is_processing_event e"
  shows "hook cb pf st e = (store_finished st e, [])
       \<or> hook cb pf st e = (st, [])
       \<or> hook cb pf st e = (store_downloading st e, [])
       \<or> (\<exists>p. hook cb pf st e = emit_download_percent cb (store_downloading st e) p)"
proof -
  from assms have np: "status e \<noteq> PStr ''postprocessing''" "status e \<noteq> PStr ''processing''"
    by (simp_all add: is_processing_event_def)
  show ?thesis
    unfolding hook_def Let_def
    by (simp only: np simp_thms if_False split: if_split pyval.split option.split) blast
qed



lemma hook_inv_init: "hook_inv hook_init"
  by (simp add: hook_inv_def hook_init_def)

lemma hook_inv_store_downloading: "hook_inv st \<Longrightarrow> hook_inv (store_downloading st e)"
  by (auto simp: hook_inv_def store_downloading_def Let_def distinct_update split: pyval.splits)

lemma hook_inv_store_finished: "hook_inv st \<Longrightarrow> hook_inv (store_finished st e)"
  by (auto simp: hook_inv_def store_finished_def Let_def distinct_update split: pyval.splits)

lemma file_total_emit_download_percent:
  "file_total (fst (emit_download_percent cb st p)) = file_total st"
  by (simp add: emit_download_percent_def Let_def)

lemma file_total_emit_processing:
  "file_total (fst (emit_processing cb st)) = file_total st"
  by (simp add: emit_processing_def)

lemma hook_inv_cong: "file_total st' = file_total st \<Longrightarrow> hook_inv st \<Longrightarrow> hook_inv st'"
  by (simp add: hook_inv_def)

lemma hook_inv_emit_download_percent:
  "hook_inv st \<Longrightarrow> hook_inv (fst (emit_download_percent cb st p))"
  by (rule hook_inv_cong [OF file_total_emit_download_percent])

lemma hook_inv_emit_processing:
  "hook_inv st \<Longrightarrow> hook_inv (fst (emit_processing cb st))"
  by (rule hook_inv_cong [OF file_total_emit_processing])

lemma hook_inv_hook:
  assumes inv: "hook_inv st"
  shows "hook_inv (fst (hook cb pf st e))"
proof (cases "is_processing_event e")
  case True
  then show ?thesis
    using hook_inv_emit_processing [OF inv] by (simp add: hook_processing)
next
  case False
  from hook_other_cases [OF False, of cb pf st] show ?thesis
    using inv hook_inv_store_finished [OF inv, of e]
      hook_inv_emit_download_percent [OF hook_inv_store_downloading [OF inv, of e], of cb]
      hook_inv_store_downloading [OF inv, of e]
    by auto
qed

lemma hook_inv_run: "hook_inv st \<Longrightarrow> hook_inv (fst (hook_run cb pf st evs))"
proof (induction evs arbitrary: st)
  case Nil
  then show ?case by simp
next
  case (Cons e evs)
  from Cons.IH [OF hook_inv_hook [OF Cons.prems, of cb pf e] ]
  show ?case by (simp add: case_prod_unfold Let_def)
qed

lemma sum_done_loop_fold:
  "sum_done_loop items fd acc
   = foldl add64 acc (map (\<lambda>(k, t). clamped fd k t) (filter (\<lambda>(k, t). 0 < t) items))"
  by (induction items fd acc rule: sum_done_loop.induct)
     (auto simp: clamped_def Let_def split: option.splits)

lemma totals_filter:
  "filter (\<lambda>t. 0 < t) (map snd ft) = map snd (filter (\<lambda>(k, t). 0 < t) ft)"
  by (induction ft) auto

lemma sums_exact_snoc:
  "sums_exact (xs @ [x]) \<Longrightarrow> sums_exact xs \<and> exact64 (sum_list xs + x)"
  by (auto simp: sums_exact_def list_all_iff)

lemma foldl_add64_exact:
  "sums_exact xs \<Longrightarrow> foldl add64 0 xs = sum_list xs"
proof (induction xs rule: rev_induct)
  case Nil
  show ?case by simp
next
  case (snoc x xs)
  from sums_exact_snoc [OF snoc.prems] have e: "sums_exact xs" "exact64 (sum_list xs + x)"
    by simp_all
  with snoc.IH show ?case
    by (simp add: add64_def exact64_def)
qed

lemma sum_list_alist_dom:
  assumes "distinct (map fst items)"
  shows "sum_list (map (\<lambda>(k, t). g k t) items)
         = (\<Sum>k \<in> dom (map_of items). g k (the (map_of items k)))"
proof -
  have "map (\<lambda>(k, t). g k t) items = map (\<lambda>x. g (fst x) (the (map_of items (fst x)))) items"
    by (rule map_cong [OF refl]) (use assms in \<open>auto simp: map_of_is_SomeI\<close>)
  also have "\<dots> = map (\<lambda>k. g k (the (map_of items k))) (map fst items)"
    by (simp add: comp_def)
  finally have "sum_list (map (\<lambda>(k, t). g k t) items)
             = sum_list (map (\<lambda>k. g k (the (map_of items k))) (map fst items))"
    by (rule arg_cong)
  also have "\<dots> = (\<Sum>k \<in> set (map fst items). g k (the (map_of items k)))"
    using assms by (rule sum_list_distinct_conv_sum_set)
  finally show ?thesis
    by (simp add: dom_map_of_conv_image_fst)
qed

lemma map_of_filter_distinct:
  "distinct (map fst xs) \<Longrightarrow>
   map_of (filter (\<lambda>(k, v). P v) xs) k
   = (case map_of xs k of None \<Rightarrow> None | Some v \<Rightarrow> if P v then Some v else None)"
proof (induction xs)
  case Nil
  show ?case by simp
next
  case (Cons kv xs)
  obtain a b where kv: "kv = (a, b)" by (cases kv)
  from Cons.prems kv have notin: "a \<notin> fst ` set xs" and d: "distinct (map fst xs)"
    by auto
  from notin have n1: "map_of xs a = None"
    by (simp add: map_of_eq_None_iff)
  from notin have n2: "map_of (filter (\<lambda>(k, v). P v) xs) a = None"
    by (auto simp: map_of_eq_None_iff)
  from Cons.IH [OF d] kv n1 n2 show ?case
    by (auto split: option.splits)
qed

lemma sum_list_known_dom:
  assumes d: "distinct (map fst ft)"
  shows "sum_list (map (\<lambda>(k, t). g k t) (filter (\<lambda>(k, t). 0 < t) ft))
         = (\<Sum>k \<in> {k \<in> dom (map_of ft). 0 < the (map_of ft k)}. g k (the (map_of ft k)))"
proof -
  let ?kn = "filter (\<lambda>(k, t). 0 < t) ft"
  from d have dk: "distinct (map fst ?kn)"
    by (rule distinct_map_filter)
  have m: "\<And>k. map_of ?kn k
             = (case map_of ft k of None \<Rightarrow> None | Some v \<Rightarrow> if 0 < v then Some v else None)"
    using map_of_filter_distinct [OF d, of "\<lambda>v. 0 < v"] by simp
  have dom_eq: "dom (map_of ?kn) = {k \<in> dom (map_of ft). 0 < the (map_of ft k)}"
    by (auto simp: m dom_def split: option.splits if_splits)
  have "sum_list (map (\<lambda>(k, t). g k t) ?kn)
        = (\<Sum>k \<in> dom (map_of ?kn). g k (the (map_of ?kn k)))"
    using dk by (rule sum_list_alist_dom)
  also have "\<dots> = (\<Sum>k \<in> dom (map_of ?kn). g k (the (map_of ft k)))"
    by (rule sum.cong) (auto simp: m split: option.splits if_splits)
  finally show ?thesis
    by (simp only: dom_eq)
qed

text \<open>
  What the hook computes on a downloading event, whatever rounds: the rounded quotient of
  the rounded product of 100 and the rounded sum of the clamped downloaded bytes, by the
  rounded sum of the totals, the sums running over the streams with a known total in the
  order of the dictionary.
\<close>

lemma hook_downloading_float:
  assumes dl: "status e = PStr ''downloading''"
    and known: "known_totals (store_downloading st e) \<noteq> []"
  shows "hook cb pf st e =
         emit_download_percent cb (store_downloading st e)
           (div64 (mul64 100
                     (sum64 (map (\<lambda>(k, t). clamped (file_downloaded (store_downloading st e)) k t)
                               (known_totals (store_downloading st e)))))
                  (sum64 (map snd (known_totals (store_downloading st e)))))"
  using dl known
  by (simp add: hook_def Let_def totals_filter known_totals_def sum_done_loop_fold sum64_def)

lemma hook_downloading_spec:
  assumes inv: "hook_inv st"
    and dl: "status e = PStr ''downloading''"
    and known: "known_totals (store_downloading st e) \<noteq> []"
    and ex_done: "sums_exact (map (\<lambda>(k, t). clamped (file_downloaded (store_downloading st e)) k t)
                                 (known_totals (store_downloading st e)))"
    and ex_total: "sums_exact (map snd (known_totals (store_downloading st e)))"
    and ex_mul: "exact64 (100 * sum_list (map (\<lambda>(k, t). clamped (file_downloaded (store_downloading st e)) k t)
                                            (known_totals (store_downloading st e))))"
  shows "hook cb pf st e =
         emit_download_percent cb (store_downloading st e)
           (fl64 (spec_aggregate_percent (map_of (file_downloaded (store_downloading st e)))
                                         (map_of (file_total (store_downloading st e)))))"
proof -
  let ?st1 = "store_downloading st e"
  let ?cs = "map (\<lambda>(k, t). clamped (file_downloaded ?st1) k t) (known_totals ?st1)"
  let ?ts = "map snd (known_totals ?st1)"
  have "hook_inv ?st1" using inv by (rule hook_inv_store_downloading)
  then have d: "distinct (map fst (file_total ?st1))" by (simp add: hook_inv_def)
  have sd: "sum64 ?cs = sum_list ?cs"
    using ex_done by (simp add: sum64_def foldl_add64_exact)
  have stt: "sum64 ?ts = sum_list ?ts"
    using ex_total by (simp add: sum64_def foldl_add64_exact)
  have mul: "mul64 100 (sum_list ?cs) = 100 * sum_list ?cs"
    using ex_mul by (simp add: mul64_def exact64_def)
  have c1: "sum_list ?cs
            = (\<Sum>k \<in> {k \<in> dom (map_of (file_total ?st1)). 0 < the (map_of (file_total ?st1) k)}.
                 max 0 (min (the (map_of (file_total ?st1) k))
                            (case map_of (file_downloaded ?st1) k of Some d \<Rightarrow> d | None \<Rightarrow> 0)))"
    using sum_list_known_dom [OF d, of "clamped (file_downloaded ?st1)"]
    by (simp add: known_totals_def clamped_def)
  have "(\<lambda>(k :: string, t :: real). t) = snd" by auto
  then have c2: "sum_list ?ts
            = (\<Sum>k \<in> {k \<in> dom (map_of (file_total ?st1)). 0 < the (map_of (file_total ?st1) k)}.
                 the (map_of (file_total ?st1) k))"
    using sum_list_known_dom [OF d, of "\<lambda>k t. t"]
    by (simp only: known_totals_def)
  have "div64 (mul64 100 (sum64 ?cs)) (sum64 ?ts) = fl64 (100 * sum_list ?cs / sum_list ?ts)"
    by (simp only: sd stt mul div64_def)
  also have "\<dots> = fl64 (spec_aggregate_percent (map_of (file_downloaded ?st1))
                                              (map_of (file_total ?st1)))"
    by (simp only: spec_aggregate_percent_def c1 c2)
  finally have "div64 (mul64 100 (sum64 ?cs)) (sum64 ?ts)
        = fl64 (spec_aggregate_percent (map_of (file_downloaded ?st1)) (map_of (file_total ?st1)))" .
  with hook_downloading_float [OF dl known, of cb pf] show ?thesis
    by simp
qed

lemma hook_finished_saturates:
  assumes "status e = PStr ''finished''"
    and "py_or (total_bytes e) (total_bytes_estimate e) = PNum t" and "0 < t"
  shows "map_of (file_downloaded (fst (hook cb pf st e))) (stream_key e) = Some (fl64 t)
       \<and> map_of (file_total (fst (hook cb pf st e))) (stream_key e) = Some (fl64 t)"
  using assms by (simp add: hook_def store_finished_def Let_def update_conv')

lemma announced_emit_download_percent:
  "processing_announced (fst (emit_download_percent cb st p)) = processing_announced st"
  by (simp add: emit_download_percent_def Let_def)

lemma announced_store_downloading:
  "processing_announced (store_downloading st e) = processing_announced st"
  by (simp add: store_downloading_def Let_def split: pyval.splits)

lemma announced_store_finished:
  "processing_announced (store_finished st e) = processing_announced st"
  by (simp add: store_finished_def Let_def split: pyval.splits)

lemma announced_hook:
  "processing_announced (fst (hook True pf st e)) = (processing_announced st \<or> is_processing_event e)"
proof (cases "is_processing_event e")
  case True
  then show ?thesis
    by (simp add: hook_processing emit_processing_def)
next
  case False
  from hook_other_cases [OF False, of True pf st] False show ?thesis
    by (auto simp: announced_emit_download_percent announced_store_downloading
          announced_store_finished)
qed

lemma announced_hook_run:
  "processing_announced (fst (hook_run True pf st evs))
   = (processing_announced st \<or> (\<exists>x \<in> set evs. is_processing_event x))"
proof (induction evs arbitrary: st)
  case Nil
  show ?case by simp
next
  case (Cons e evs)
  show ?case
    using Cons.IH [of "fst (hook True pf st e)"] announced_hook [of pf st e]
    by (auto simp: case_prod_unfold Let_def)
qed

lemma phase_emit_download_percent:
  "filter (\<lambda>x. fst x = ''processing'') (snd (emit_download_percent cb st p)) = []"
  by (simp add: emit_download_percent_def Let_def)

lemma hook_processing_emissions:
  "filter (\<lambda>x. fst x = ''processing'') (snd (hook True pf st e))
   = (if is_processing_event e \<and> \<not> processing_announced st then [(''processing'', None)] else [])"
proof (cases "is_processing_event e")
  case True
  then show ?thesis
    by (simp add: hook_processing emit_processing_def)
next
  case False
  from hook_other_cases [OF False, of True pf st] False show ?thesis
    by (auto simp: phase_emit_download_percent)
qed

lemma hook_run_processing_emissions:
  "filter (\<lambda>x. fst x = ''processing'') (snd (hook_run True pf st evs))
   = (if \<not> processing_announced st \<and> (\<exists>x \<in> set evs. is_processing_event x)
      then [(''processing'', None)] else [])"
proof (induction evs arbitrary: st)
  case Nil
  show ?case by simp
next
  case (Cons e evs)
  show ?case
    using Cons.IH [of "fst (hook True pf st e)"] announced_hook [of pf st e]
      hook_processing_emissions [of pf st e]
    by (auto simp: case_prod_unfold Let_def)
qed

text \<open>
  C7. With a progress callback installed (as the worker always does), a raw event whose
  status is "processing" or "postprocessing", arriving after any earlier events of the job,
  emits exactly one phase-only notification \<open>(''processing'', None)\<close> and sets the latch
  when no earlier event of the job had such a status, and emits nothing and changes nothing
  when one had. Over a whole job that contains such an event, the emissions contain
  exactly one processing notification.
\<close>

theorem processing_latched_once:
  assumes "is_processing_event e"
  shows "hook True pf (fst (hook_run True pf hook_init pre)) e
           = (if \<exists>x \<in> set pre. is_processing_event x
              then (fst (hook_run True pf hook_init pre), [])
              else ((fst (hook_run True pf hook_init pre))\<lparr>processing_announced := True\<rparr>,
                    [(''processing'', None)]))
       \<and> filter (\<lambda>x. fst x = ''processing'') (snd (hook_run True pf hook_init (pre @ e # post)))
           = [(''processing'', None)]"
proof -
  let ?st = "fst (hook_run True pf hook_init pre)"
  have a: "processing_announced ?st = (\<exists>x \<in> set pre. is_processing_event x)"
    using announced_hook_run [of pf hook_init pre] by (simp add: hook_init_def)
  have "hook True pf ?st e = emit_processing True ?st"
    using assms by (rule hook_processing)
  with a have first: "hook True pf ?st e
           = (if \<exists>x \<in> set pre. is_processing_event x then (?st, [])
              else (?st\<lparr>processing_announced := True\<rparr>, [(''processing'', None)]))"
    by (simp add: emit_processing_def)
  have "\<exists>x \<in> set (pre @ e # post). is_processing_event x"
    using assms by auto
  then have "filter (\<lambda>x. fst x = ''processing'') (snd (hook_run True pf hook_init (pre @ e # post)))
           = [(''processing'', None)]"
    using hook_run_processing_emissions [of pf hook_init "pre @ e # post"]
    by (simp add: hook_init_def)
  with first show ?thesis by simp
qed

theorem processing_latched_once_witness:
  "is_processing_event (downloading_event ''v'' 10 10\<lparr>status := PStr ''postprocessing''\<rparr>)
   \<and> snd (hook True (\<lambda>s. None)
        (fst (hook_run True (\<lambda>s. None) hook_init
               [downloading_event ''v'' 10 10,
                downloading_event ''v'' 10 10\<lparr>status := PStr ''processing''\<rparr>]))
        (downloading_event ''v'' 10 10\<lparr>status := PStr ''postprocessing''\<rparr>)) = []
   \<and> snd (hook True (\<lambda>s. None)
        (fst (hook_run True (\<lambda>s. None) hook_init [downloading_event ''v'' 10 10]))
        (downloading_event ''v'' 10 10\<lparr>status := PStr ''postprocessing''\<rparr>))
      = [(''processing'', None)]"
  using processing_latched_once
    [of "downloading_event ''v'' 10 10\<lparr>status := PStr ''postprocessing''\<rparr>" "\<lambda>s. None"
        "[downloading_event ''v'' 10 10, downloading_event ''v'' 10 10\<lparr>status := PStr ''processing''\<rparr>]" "[]"]
    processing_latched_once
    [of "downloading_event ''v'' 10 10\<lparr>status := PStr ''postprocessing''\<rparr>" "\<lambda>s. None"
        "[downloading_event ''v'' 10 10]" "[]"]
  by (simp add: is_processing_event_def downloading_event_def)

lemma saturated_exact_percent: "spec_aggregate_percent (map_of [(''a.mp4'', 5592406)])
        (map_of [(''a.mp4'', 6004799503160661 / 1073741824)]) = 100"
proof -
  have s: "{k \<in> dom (map_of [(''a.mp4'', 6004799503160661 / 1073741824 :: real)]).
            0 < the (map_of [(''a.mp4'', 6004799503160661 / 1073741824 :: real)] k)} = {''a.mp4''}"
    by (auto split: if_splits)
  show ?thesis
    unfolding spec_aggregate_percent_def s by simp
qed

lemma example_exact_percent: "spec_aggregate_percent (map_of [(''A'', 50), (''B'', 0)]) (map_of [(''A'', 100), (''B'', 200)])
           = 100 * 50 / 300"
proof -
  have s: "{k \<in> dom (map_of [(''A'', 100 :: real), (''B'', 200)]).
            0 < the (map_of [(''A'', 100 :: real), (''B'', 200)] k)} = {''A'', ''B''}"
    by (auto split: if_splits)
  show ?thesis
    unfolding spec_aggregate_percent_def s by simp
qed


text \<open>
  C2 (amended). In any state the hook reaches during a job, take a downloading event after
  whose dictionary writes at least one stream has a known total, and suppose no rounding
  occurs in the two sums and in the multiplication by 100 (every partial sum of the clamped
  downloaded bytes and of the totals, and 100 times the sum of the former, is a float). Then
  the hook passes to \<^verbatim>\<open>_emit_download_percent\<close> the float nearest to the specification's
  aggregate: 100 times the sum of the streams' downloaded bytes, each clamped into
  0..total, over the sum of the totals. A finished event with a known positive total
  records downloaded = total for its stream. Streams A at 50 of 100 and B at 0 of 200 give
  100 * 50 / 300, emitted as 16; once both streams have reached their totals the emitted
  percent is 100.
\<close>

theorem aggregate_percent_formula:
  assumes st: "st = fst (hook_run cb pf hook_init evs)"
    and st1: "st1 = store_downloading st e"
    and cs: "cs = map (\<lambda>(k, t). clamped (file_downloaded st1) k t) (known_totals st1)"
  shows "(status e = PStr ''downloading'' \<and> known_totals st1 \<noteq> []
            \<and> sums_exact cs \<and> sums_exact (map snd (known_totals st1)) \<and> exact64 (100 * sum_list cs) \<longrightarrow>
            hook cb pf st e =
              emit_download_percent cb st1
                (fl64 (spec_aggregate_percent (map_of (file_downloaded st1)) (map_of (file_total st1)))))
       \<and> (status e = PStr ''finished'' \<and> py_or (total_bytes e) (total_bytes_estimate e) = PNum t \<and> 0 < t \<longrightarrow>
            map_of (file_downloaded (fst (hook cb pf st e))) (stream_key e) = Some (fl64 t)
          \<and> map_of (file_total (fst (hook cb pf st e))) (stream_key e) = Some (fl64 t))
       \<and> snd (hook_run True pf hook_init
                [downloading_event ''A'' 50 100, downloading_event ''B'' 0 200])
           = [(''download'', Some 50), (''download'', Some 16)]
       \<and> spec_aggregate_percent (map_of [(''A'', 50), (''B'', 0)]) (map_of [(''A'', 100), (''B'', 200)])
           = 100 * 50 / 300
       \<and> snd (hook_run True pf hook_init
                [downloading_event ''A'' 50 100, downloading_event ''B'' 0 200,
                 downloading_event ''B'' 200 200, downloading_event ''A'' 100 100])
           = [(''download'', Some 50), (''download'', Some 16), (''download'', Some 83),
              (''download'', Some 100)]"
proof -
  have inv: "hook_inv st"
    unfolding st using hook_inv_init by (rule hook_inv_run)
  have p1: "status e = PStr ''downloading'' \<and> known_totals st1 \<noteq> []
            \<and> sums_exact cs \<and> sums_exact (map snd (known_totals st1)) \<and> exact64 (100 * sum_list cs) \<longrightarrow>
            hook cb pf st e =
              emit_download_percent cb st1
                (fl64 (spec_aggregate_percent (map_of (file_downloaded st1)) (map_of (file_total st1))))"
    unfolding cs st1 using hook_downloading_spec [OF inv, of e cb pf] by blast
  have p2: "status e = PStr ''finished'' \<and> py_or (total_bytes e) (total_bytes_estimate e) = PNum t \<and> 0 < t \<longrightarrow>
            map_of (file_downloaded (fst (hook cb pf st e))) (stream_key e) = Some (fl64 t)
          \<and> map_of (file_total (fst (hook cb pf st e))) (stream_key e) = Some (fl64 t)"
    using hook_finished_saturates [of e t cb pf st] by blast
  have ex1: "snd (hook_run True pf hook_init
                [downloading_event ''A'' 50 100, downloading_event ''B'' 0 200])
           = [(''download'', Some 50), (''download'', Some 16)]"
    by code_simp
  have ex3: "snd (hook_run True pf hook_init
                [downloading_event ''A'' 50 100, downloading_event ''B'' 0 200,
                 downloading_event ''B'' 200 200, downloading_event ''A'' 100 100])
           = [(''download'', Some 50), (''download'', Some 16), (''download'', Some 83),
              (''download'', Some 100)]"
    by code_simp
  from p1 p2 ex1 example_exact_percent ex3 show ?thesis by (intro conjI)
qed

theorem aggregate_percent_formula_witness:
  "status (downloading_event ''B'' 0 200) = PStr ''downloading''
   \<and> known_totals (store_downloading (fst (hook_run True (\<lambda>s. None) hook_init [downloading_event ''A'' 50 100]))
                     (downloading_event ''B'' 0 200)) = [(''A'', 100), (''B'', 200)]
   \<and> sums_exact [50, 0] \<and> sums_exact [100, 200] \<and> exact64 (100 * sum_list [50, 0])
   \<and> hook True (\<lambda>s. None) (fst (hook_run True (\<lambda>s. None) hook_init [downloading_event ''A'' 50 100]))
        (downloading_event ''B'' 0 200)
      = emit_download_percent True
          (store_downloading (fst (hook_run True (\<lambda>s. None) hook_init [downloading_event ''A'' 50 100]))
             (downloading_event ''B'' 0 200))
          (fl64 (spec_aggregate_percent (map_of [(''A'', 50), (''B'', 0)]) (map_of [(''A'', 100), (''B'', 200)])))
   \<and> status (finished_event ''B'' 200) = PStr ''finished''
   \<and> py_or (total_bytes (finished_event ''B'' 200)) (total_bytes_estimate (finished_event ''B'' 200)) = PNum 200
   \<and> map_of (file_downloaded (fst (hook True (\<lambda>s. None)
         (fst (hook_run True (\<lambda>s. None) hook_init [downloading_event ''A'' 50 100]))
         (finished_event ''B'' 200)))) ''B'' = Some 200"
proof -
  let ?st = "fst (hook_run True (\<lambda>s. None) hook_init [downloading_event ''A'' 50 100])"
  have sd: "store_downloading ?st (downloading_event ''B'' 0 200)
            = \<lparr>last_percent = 50, processing_announced = False,
               file_downloaded = [(''A'', 50), (''B'', 0)], file_total = [(''A'', 100), (''B'', 200)]\<rparr>"
    by code_simp
  have h1: "status (downloading_event ''B'' 0 200) = PStr ''downloading''"
    by (simp add: downloading_event_def)
  have kn: "known_totals (store_downloading ?st (downloading_event ''B'' 0 200)) = [(''A'', 100), (''B'', 200)]"
    unfolding sd by (simp add: known_totals_def)
  have cl: "map (\<lambda>(k, t). clamped (file_downloaded (store_downloading ?st (downloading_event ''B'' 0 200))) k t)
              (known_totals (store_downloading ?st (downloading_event ''B'' 0 200))) = [50, 0]"
    unfolding kn unfolding sd by (simp add: clamped_def)
  have e1: "sums_exact [50, 0]" by code_simp
  have e2: "sums_exact [100, 200]" by code_simp
  have e3: "exact64 (100 * sum_list [50, 0])" by code_simp
  have h3: "status (finished_event ''B'' 200) = PStr ''finished''"
    by (simp add: finished_event_def)
  have h4: "py_or (total_bytes (finished_event ''B'' 200)) (total_bytes_estimate (finished_event ''B'' 200)) = PNum 200"
    by (simp add: finished_event_def py_or_def truthy_def)
  have key: "stream_key (finished_event ''B'' 200) = ''B''"
    by (simp add: finished_event_def stream_key_def)
  have f200: "fl64 200 = 200" by code_simp
  let ?st1 = "store_downloading ?st (downloading_event ''B'' 0 200)"
  let ?cs = "map (\<lambda>(k, t). clamped (file_downloaded ?st1) k t) (known_totals ?st1)"
  have g1: "known_totals ?st1 \<noteq> []" by (simp only: kn) simp
  have g2: "sums_exact ?cs" by (simp only: cl e1)
  have ts: "map snd (known_totals ?st1) = [100, 200]" by (simp only: kn) simp
  have g3: "sums_exact (map snd (known_totals ?st1))" by (simp only: ts e2)
  have g4: "exact64 (100 * sum_list ?cs)" by (simp only: cl e3)
  have fd: "file_downloaded ?st1 = [(''A'', 50), (''B'', 0)]" by (simp only: sd) simp
  have ft: "file_total ?st1 = [(''A'', 100), (''B'', 200)]" by (simp only: sd) simp
  from aggregate_percent_formula [where cb = True and pf = "\<lambda>s. None"
      and evs = "[downloading_event ''A'' 50 100]" and e = "downloading_event ''B'' 0 200",
      OF refl refl refl]
  have "status (downloading_event ''B'' 0 200) = PStr ''downloading'' \<and> known_totals ?st1 \<noteq> []
            \<and> sums_exact ?cs \<and> sums_exact (map snd (known_totals ?st1)) \<and> exact64 (100 * sum_list ?cs) \<longrightarrow>
        hook True (\<lambda>s. None) ?st (downloading_event ''B'' 0 200)
          = emit_download_percent True ?st1
              (fl64 (spec_aggregate_percent (map_of (file_downloaded ?st1)) (map_of (file_total ?st1))))"
    by (rule conjunct1)
  with h1 g1 g2 g3 g4
  have "hook True (\<lambda>s. None) ?st (downloading_event ''B'' 0 200)
          = emit_download_percent True ?st1
              (fl64 (spec_aggregate_percent (map_of (file_downloaded ?st1)) (map_of (file_total ?st1))))"
    by blast
  then have c1: "hook True (\<lambda>s. None) ?st (downloading_event ''B'' 0 200)
      = emit_download_percent True (store_downloading ?st (downloading_event ''B'' 0 200))
          (fl64 (spec_aggregate_percent (map_of [(''A'', 50), (''B'', 0)]) (map_of [(''A'', 100), (''B'', 200)])))"
    by (simp only: fd ft)
  from aggregate_percent_formula [where cb = True and pf = "\<lambda>s. None"
      and evs = "[downloading_event ''A'' 50 100]" and e = "finished_event ''B'' 200" and t = 200,
      OF refl refl refl] h3 h4 key f200
  have c2: "map_of (file_downloaded (fst (hook True (\<lambda>s. None) ?st (finished_event ''B'' 200)))) ''B'' = Some 200"
    by simp
  from h1 kn e1 e2 e3 c1 h3 h4 c2 show ?thesis by (intro conjI)
qed

text \<open>
  C2 as stated fails on the code: the hook computes in floats. A stream whose estimated
  total is the float 5592405.333333333 and whose downloaded bytes have reached it has an
  aggregate of exactly 100, but the product \<^verbatim>\<open>100.0 * sum_done\<close> rounds down, the quotient
  is the float just below 100, and the percent emitted is 99.
\<close>

theorem aggregate_percent_rounding_counterexample:
  "hook_run True (\<lambda>s. None) hook_init
        [estimate_event ''a.mp4'' 5592406 (6004799503160661 / 1073741824)]
      = (\<lparr>last_percent = 99, processing_announced = False,
          file_downloaded = [(''a.mp4'', 5592406)],
          file_total = [(''a.mp4'', 6004799503160661 / 1073741824)]\<rparr>,
         [(''download'', Some 99)])
   \<and> spec_aggregate_percent (map_of [(''a.mp4'', 5592406)])
        (map_of [(''a.mp4'', 6004799503160661 / 1073741824)]) = 100"
proof -
  have a: "hook_run True (\<lambda>s. None) hook_init
        [estimate_event ''a.mp4'' 5592406 (6004799503160661 / 1073741824)]
      = (\<lparr>last_percent = 99, processing_announced = False,
          file_downloaded = [(''a.mp4'', 5592406)],
          file_total = [(''a.mp4'', 6004799503160661 / 1073741824)]\<rparr>,
         [(''download'', Some 99)])"
    by code_simp
  from a saturated_exact_percent show ?thesis by (intro conjI)
qed

lemma emit_download_percent_step:
  "(snd (emit_download_percent True st p) = []
      \<and> last_percent (fst (emit_download_percent True st p)) = last_percent st)
   \<or> (\<exists>pi. pi \<noteq> last_percent st \<and> 0 \<le> pi \<and> pi \<le> 100
         \<and> snd (emit_download_percent True st p) = [(''download'', Some (of_int pi))]
         \<and> last_percent (fst (emit_download_percent True st p)) = pi)"
proof -
  have "0 \<le> py_int (max 0 (min 100 p))" "py_int (max 0 (min 100 p)) \<le> 100"
    by (simp_all add: py_int_def max_def min_def floor_le_iff le_floor_iff)
  then show ?thesis
    by (simp add: emit_download_percent_def Let_def)
qed

lemma last_percent_store_downloading: "last_percent (store_downloading st e) = last_percent st"
  by (simp add: store_downloading_def Let_def split: pyval.splits)

lemma last_percent_store_finished: "last_percent (store_finished st e) = last_percent st"
  by (simp add: store_finished_def Let_def split: pyval.splits)

lemma hook_download_step:
  "(filter (\<lambda>x. fst x = ''download'') (snd (hook True pf st e)) = []
      \<and> last_percent (fst (hook True pf st e)) = last_percent st)
   \<or> (\<exists>pi. pi \<noteq> last_percent st \<and> 0 \<le> pi \<and> pi \<le> 100
         \<and> filter (\<lambda>x. fst x = ''download'') (snd (hook True pf st e)) = [(''download'', Some (of_int pi))]
         \<and> last_percent (fst (hook True pf st e)) = pi)"
proof (cases "is_processing_event e")
  case True
  then show ?thesis
    by (simp add: hook_processing emit_processing_def)
next
  case False
  from hook_other_cases [OF False, of True pf st]
  consider "hook True pf st e = (store_finished st e, [])" | "hook True pf st e = (st, [])"
    | "hook True pf st e = (store_downloading st e, [])"
    | p where "hook True pf st e = emit_download_percent True (store_downloading st e) p"
    by blast
  then show ?thesis
  proof cases
    case 4
    with emit_download_percent_step [of "store_downloading st e" p] show ?thesis
      by (auto simp: last_percent_store_downloading)
  qed (simp_all add: last_percent_store_downloading last_percent_store_finished)
qed

text \<open>
  What does hold of the download percents a job emits, from any state of the hook: no two
  consecutive ones are equal, the first differs from the \<^verbatim>\<open>last_percent\<close> the hook
  started with (which is \<open>- 1\<close> for a new job, so the first is never suppressed), and each
  is a whole number from 0 to 100.
\<close>

lemma hook_run_coalesced:
  "distinct_adj (Some (real_of_int (last_percent st)) # download_percents (snd (hook_run True pf st evs)))
   \<and> list_all (\<lambda>x. \<exists>pi. x = Some (real_of_int pi) \<and> 0 \<le> pi \<and> pi \<le> 100)
        (download_percents (snd (hook_run True pf st evs)))"
proof (induction evs arbitrary: st)
  case Nil
  show ?case by (simp add: download_percents_def)
next
  case (Cons e evs)
  from hook_download_step [of pf st e] Cons.IH [of "fst (hook True pf st e)"]
  show ?case
    by (auto simp: download_percents_def case_prod_unfold Let_def)
qed

text \<open>
  C1 (fails on the code). The aggregate branch of the hook guards an emission only by
  \<open>pi = last_percent\<close>; the test \<open>p < last_percent\<close> that suppresses a lower percent exists
  only in the fallback branch for unknown totals. A video stream that is complete (100 percent
  emitted) followed by the first event of the audio stream makes the hook emit 80 after
  100: the emitted sequence is not increasing.
\<close>

theorem aggregate_percent_regresses:
  "snd (hook_run True pf hook_init
         [downloading_event ''v.f137.mp4'' 1000 1000, finished_event ''v.f137.mp4'' 1000,
          downloading_event ''a.f140.m4a'' 0 250])
   = [(''download'', Some 100), (''download'', Some 80)]"
  by code_simp

section \<open>Properties of the selection callbacks\<close>

lemma state_get_found:
  "state_get now st token = (Some sel, st') \<Longrightarrow> st' = st \<and> pending st token = Some sel"
  by (auto simp: state_get_def split: option.splits if_splits)

lemma validate_rejects_foreign:
  assumes "callback_query update = Some query"
    and "(from_user query = Some uid \<and> uid \<noteq> user_id sel)
         \<or> (message query = Some (cid, mid) \<and> cid \<noteq> sel_chat_id sel)"
  shows "\<not> validate_selection_owner update sel"
  using assms by (auto simp: validate_selection_owner_def)

text \<open>
  C9. A callback whose token resolves to a stored selection, and that was sent by a user
  other than the selection's owner or from a chat other than the selection's chat, fails
  \<^verbatim>\<open>_validate_selection_owner\<close>; both the playlist callback and the quality callback
  then only answer "This selection is not for you." and leave the whole store and the
  queue as they were, so the selection is unchanged.
\<close>

theorem foreign_callback_rejected:
  assumes q: "callback_query update = Some query"
    and d: "data query = Some d"
    and sp: "split_colon2 d = Some (pre, token, action)"
    and g: "state_get now (state services) token = (Some sel, st')"
    and foreign: "(from_user query = Some uid \<and> uid \<noteq> user_id sel)
                  \<or> (message query = Some (cid, mid) \<and> cid \<noteq> sel_chat_id sel)"
  shows "\<not> validate_selection_owner update sel
       \<and> on_playlist_callback now now' services update
           = (services, [Answer None False, Answer (Some ''This selection is not for you.'') True], None)
       \<and> on_quality_callback now now' services update
           = (services, [Answer None False, Answer (Some ''This selection is not for you.'') True], None)
       \<and> pending (state (fst (on_playlist_callback now now' services update))) token = Some sel
       \<and> pending (state (fst (on_quality_callback now now' services update))) token = Some sel"
proof -
  have v: "\<not> validate_selection_owner update sel"
    using q foreign by (rule validate_rejects_foreign)
  from state_get_found [OF g] have st: "st' = state services" and p: "pending (state services) token = Some sel"
    by simp_all
  have a: "on_playlist_callback now now' services update
           = (services, [Answer None False, Answer (Some ''This selection is not for you.'') True], None)"
    using q d sp g v st by (simp add: on_playlist_callback_def)
  have b: "on_quality_callback now now' services update
           = (services, [Answer None False, Answer (Some ''This selection is not for you.'') True], None)"
    using q d sp g v st by (simp add: on_quality_callback_def)
  from v a b p show ?thesis by simp
qed

lemma sample_split: "split_colon2 ''pl:ab12:t2'' = Some (''pl'', ''ab12'', ''t2'')"
  by (simp add: split_colon2_def split_first_def)

lemma sample_get:
  "state_get 120 (state sample_services) ''ab12'' = (Some sample_selection, state sample_services)"
  by (simp add: state_get_def sample_services_def sample_selection_def)

theorem foreign_callback_rejected_witness:
  "callback_query (sample_click 9 7) = Some \<lparr>from_user = Some 9, message = Some (7, 55), data = Some ''pl:ab12:t2''\<rparr>
   \<and> split_colon2 ''pl:ab12:t2'' = Some (''pl'', ''ab12'', ''t2'')
   \<and> state_get 120 (state sample_services) ''ab12'' = (Some sample_selection, state sample_services)
   \<and> 9 \<noteq> user_id sample_selection
   \<and> \<not> validate_selection_owner (sample_click 9 7) sample_selection
   \<and> on_playlist_callback 120 121 sample_services (sample_click 9 7)
       = (sample_services, [Answer None False, Answer (Some ''This selection is not for you.'') True], None)
   \<and> on_quality_callback 120 121 sample_services (sample_click 9 7)
       = (sample_services, [Answer None False, Answer (Some ''This selection is not for you.'') True], None)"
proof -
  have q: "callback_query (sample_click 9 7)
           = Some \<lparr>from_user = Some 9, message = Some (7, 55), data = Some ''pl:ab12:t2''\<rparr>"
    by (simp add: sample_click_def)
  have d: "data \<lparr>from_user = Some 9, message = Some (7, 55), data = Some ''pl:ab12:t2''\<rparr> = Some ''pl:ab12:t2''"
    by simp
  have f: "(from_user \<lparr>from_user = Some 9, message = Some (7, 55), data = Some ''pl:ab12:t2''\<rparr> = Some 9
            \<and> 9 \<noteq> user_id sample_selection)
         \<or> (message \<lparr>from_user = Some 9, message = Some (7, 55), data = Some ''pl:ab12:t2''\<rparr> = Some (7, 55)
            \<and> 7 \<noteq> sel_chat_id sample_selection)"
    by (simp add: sample_selection_def)
  have u: "9 \<noteq> user_id sample_selection"
    by (simp add: sample_selection_def)
  from foreign_callback_rejected [OF q d sample_split sample_get f, of 121] q sample_split sample_get u
  show ?thesis by simp
qed

text \<open>
  For contrast: the same click sent by the owner in the owner's chat records the choice,
  while a foreign user or a foreign chat leaves the selection as it was.
\<close>

lemma owner_callback_selects:
  "pending (state (fst (on_playlist_callback 120 121 sample_services (sample_click 3 7)))) ''ab12''
     = Some (sample_selection\<lparr>selected_indices := {2}\<rparr>)
   \<and> pending (state (fst (on_playlist_callback 120 121 sample_services (sample_click 9 7)))) ''ab12''
     = Some sample_selection
   \<and> pending (state (fst (on_playlist_callback 120 121 sample_services (sample_click 3 8)))) ''ab12''
     = Some sample_selection"
  by (simp add: on_playlist_callback_def sample_click_def sample_split sample_get
        validate_selection_owner_def parse_int_def is_digit_def digits_value_def)
   (simp add: sample_selection_def sample_services_def)

section \<open>Properties of the progress reporter\<close>

lemma timeouts_keep_progress:
  "last_progress_time (fst (progress_updater min_interval st (map TimedOut ts))) = last_progress_time st
   \<and> last_seen_percent (fst (progress_updater min_interval st (map TimedOut ts))) = last_seen_percent st
   \<and> phase (fst (progress_updater min_interval st (map TimedOut ts))) = phase st"
proof (induction ts arbitrary: st)
  case Nil
  show ?case by simp
next
  case (Cons t ts)
  show ?case
    using Cons.IH [of "fst (progress_step min_interval st (TimedOut t))"]
    by (simp add: case_prod_unfold Let_def)
qed

lemma received_rendered:
  assumes "progress_step min_interval st0 (Received new_phase percent t0) = (st, Some shown)"
  shows "last_progress_time st = t0
       \<and> (phase st = ''download'' \<longrightarrow>
            (\<exists>p. percent = Some p \<and> last_seen_percent st = py_int p
                 \<and> shown = ''Downloading... '' @ str_int (py_int p) @ ''%''))
       \<and> (phase st \<noteq> ''download'' \<longrightarrow> shown = ''Processing...'')"
  using assms
  by (auto simp: Let_def split: if_splits option.splits)

text \<open>
  C6 (amended). Take the last progress event the reporter received, and suppose the
  reporter rendered it (it was not dropped by the rate limit or as a repeated percent);
  let any number of time-outs follow. On the next time-out: within the minimum render
  interval of the last render nothing is rendered; otherwise, in the download phase the text
  is "Downloading... P% (no progress for M:SS)", with P the percent of that event and M:SS
  the whole seconds from that event to now, split into minutes and two-digit seconds, or
  "Downloading..." alone when P is zero or less; in another phase it is
  "Processing... (no progress for M:SS)". The elapsed time is counted from the progress
  event, not from the stall messages rendered since, and the percent shown is the event's.
  A reporter that has received no event yet renders "Downloading..." alone.
\<close>

theorem stall_render:
  assumes ev: "progress_step min_interval st0 (Received new_phase percent t0) = (st, Some shown)"
    and st': "st' = fst (progress_updater min_interval st (map TimedOut ts))"
    and elapsed: "elapsed = py_int (sub64 now t0)"
    and fresh: "fresh = fst (progress_updater min_interval (reporter_init start_time) (map TimedOut ts0))"
  shows "(sub64 now (last_sent_time st') < min_interval \<longrightarrow>
            progress_step min_interval st' (TimedOut now) = (st', None))
       \<and> (\<not> sub64 now (last_sent_time st') < min_interval \<and> phase st = ''download'' \<longrightarrow>
            (\<exists>p. percent = Some p
               \<and> snd (progress_step min_interval st' (TimedOut now))
                   = Some (if py_int p \<le> 0 then ''Downloading...''
                           else ''Downloading... '' @ str_int (py_int p) @ ''% (no progress for ''
                                @ str_int (elapsed div 60) @ '':'' @ fmt_02d (elapsed mod 60) @ '')'')))
       \<and> (\<not> sub64 now (last_sent_time st') < min_interval \<and> phase st \<noteq> ''download'' \<longrightarrow>
            snd (progress_step min_interval st' (TimedOut now))
              = Some (''Processing... (no progress for ''
                      @ str_int (elapsed div 60) @ '':'' @ fmt_02d (elapsed mod 60) @ '')''))
       \<and> (\<not> sub64 now (last_sent_time fresh) < min_interval \<longrightarrow>
            snd (progress_step min_interval fresh (TimedOut now)) = Some ''Downloading...'')"
proof -
  from timeouts_keep_progress [of min_interval st ts] st'
  have keep: "last_progress_time st' = last_progress_time st"
    "last_seen_percent st' = last_seen_percent st" "phase st' = phase st"
    by simp_all
  from received_rendered [OF ev]
  have t0: "last_progress_time st = t0"
    and dl: "phase st = ''download'' \<longrightarrow> (\<exists>p. percent = Some p \<and> last_seen_percent st = py_int p)"
    by blast+
  from timeouts_keep_progress [of min_interval "reporter_init start_time" ts0] fresh
  have fr: "last_seen_percent fresh = 0" "phase fresh = ''download''"
    by (simp_all add: reporter_init_def)
  have p1: "sub64 now (last_sent_time st') < min_interval \<longrightarrow>
            progress_step min_interval st' (TimedOut now) = (st', None)"
    by simp
  have p2: "\<not> sub64 now (last_sent_time st') < min_interval \<and> phase st = ''download'' \<longrightarrow>
            (\<exists>p. percent = Some p
               \<and> snd (progress_step min_interval st' (TimedOut now))
                   = Some (if py_int p \<le> 0 then ''Downloading...''
                           else ''Downloading... '' @ str_int (py_int p) @ ''% (no progress for ''
                                @ str_int (elapsed div 60) @ '':'' @ fmt_02d (elapsed mod 60) @ '')''))"
    using keep t0 dl elapsed by (auto simp: Let_def no_progress_for_def)
  have p3: "\<not> sub64 now (last_sent_time st') < min_interval \<and> phase st \<noteq> ''download'' \<longrightarrow>
            snd (progress_step min_interval st' (TimedOut now))
              = Some (''Processing... (no progress for ''
                      @ str_int (elapsed div 60) @ '':'' @ fmt_02d (elapsed mod 60) @ '')'')"
    using keep t0 elapsed by (simp add: Let_def no_progress_for_def)
  have p4: "\<not> sub64 now (last_sent_time fresh) < min_interval \<longrightarrow>
            snd (progress_step min_interval fresh (TimedOut now)) = Some ''Downloading...''"
    using fr by (simp add: Let_def)
  from p1 p2 p3 p4 show ?thesis by (intro conjI)
qed

theorem stall_render_witness:
  "progress_step 1 (reporter_init 1000) (Received ''download'' (Some 42) 1001)
     = (\<lparr>last_sent_percent = 42, last_sent_time = 1001, phase = ''download'',
         last_progress_time = 1001, last_seen_percent = 42\<rparr>, Some ''Downloading... 42%'')
   \<and> \<not> sub64 (2153 / 2) (last_sent_time (fst (progress_updater 1
           \<lparr>last_sent_percent = 42, last_sent_time = 1001, phase = ''download'',
            last_progress_time = 1001, last_seen_percent = 42\<rparr>
           (map TimedOut [1012])))) < 1
   \<and> snd (progress_step 1
        (fst (progress_updater 1
           \<lparr>last_sent_percent = 42, last_sent_time = 1001, phase = ''download'',
            last_progress_time = 1001, last_seen_percent = 42\<rparr>
           (map TimedOut [1012])))
        (TimedOut (2153 / 2)))
      = Some ''Downloading... 42% (no progress for 1:15)''"
proof -
  let ?st = "\<lparr>last_sent_percent = 42, last_sent_time = 1001, phase = ''download'',
              last_progress_time = 1001, last_seen_percent = 42\<rparr>"
  let ?st' = "fst (progress_updater 1 ?st (map TimedOut [1012]))"
  have ev: "progress_step 1 (reporter_init 1000) (Received ''download'' (Some 42) 1001)
            = (?st, Some ''Downloading... 42%'')"
    by code_simp
  have h3: "\<not> sub64 (2153 / 2) (last_sent_time ?st') < 1"
    by code_simp
  have h4: "phase ?st = ''download''" by simp
  have shown_text: "(if py_int 42 \<le> 0 then ''Downloading...''
            else ''Downloading... '' @ str_int (py_int 42) @ ''% (no progress for ''
               @ str_int (py_int (sub64 (2153 / 2) 1001) div 60) @ '':''
               @ fmt_02d (py_int (sub64 (2153 / 2) 1001) mod 60) @ '')'')
             = ''Downloading... 42% (no progress for 1:15)''"
    by code_simp
  from stall_render [where ts = "[1012]" and now = "2153 / 2" and start_time = 0 and ts0 = "[]",
      OF ev refl refl refl, THEN conjunct2, THEN conjunct1] h3 h4
  have "\<exists>p. Some 42 = Some p
          \<and> snd (progress_step 1 ?st' (TimedOut (2153 / 2)))
              = Some (if py_int p \<le> 0 then ''Downloading...''
                      else ''Downloading... '' @ str_int (py_int p) @ ''% (no progress for ''
                           @ str_int (py_int (sub64 (2153 / 2) 1001) div 60) @ '':''
                           @ fmt_02d (py_int (sub64 (2153 / 2) 1001) mod 60) @ '')'')"
    by blast
  then have "snd (progress_step 1 ?st' (TimedOut (2153 / 2)))
              = Some (if py_int 42 \<le> 0 then ''Downloading...''
                      else ''Downloading... '' @ str_int (py_int 42) @ ''% (no progress for ''
                           @ str_int (py_int (sub64 (2153 / 2) 1001) div 60) @ '':''
                           @ fmt_02d (py_int (sub64 (2153 / 2) 1001) mod 60) @ '')'')"
    by auto
  with shown_text have c: "snd (progress_step 1 ?st' (TimedOut (2153 / 2)))
        = Some ''Downloading... 42% (no progress for 1:15)''"
    by (simp only:)
  from ev h3 c show ?thesis by (intro conjI)
qed

text \<open>
  C6 as stated fails on the code: a reporter that has received no progress yet renders
  "Downloading..." on a time-out, with neither a percent nor an elapsed time; and a time-out
  that falls within the minimum render interval of the last render (here 42 percent shown at
  1008, time-out at 1010, minimum interval 5) renders nothing.
\<close>

theorem stall_render_counterexample:
  "snd (progress_step 1 (reporter_init 1000) (TimedOut 1010)) = Some ''Downloading...''
   \<and> progress_updater 5 (reporter_init 1000) [Received ''download'' (Some 42) 1008, TimedOut 1010]
      = (\<lparr>last_sent_percent = 42, last_sent_time = 1008, phase = ''download'',
          last_progress_time = 1008, last_seen_percent = 42\<rparr>,
         [Some ''Downloading... 42%'', None])"
  by code_simp

section \<open>Properties of the worker loop\<close>

lemma upload_files_fields:
  "session_dir (fst (upload_files env ps idx n s)) = session_dir s
   \<and> job_success (fst (upload_files env ps idx n s)) = job_success s"
proof (induction ps arbitrary: idx s)
  case Nil
  show ?case by simp
next
  case (Cons p ps)
  show ?case
    using Cons.IH [of "Suc idx" "s\<lparr>rendered := rendered s @ [italic (upload_label idx n @ ''...'')]\<rparr>"]
    by (simp add: Let_def split: option.splits)
qed

lemma upload_files_fieldsD:
  "upload_files env ps idx n s = (s', r) \<Longrightarrow>
   session_dir s' = session_dir s \<and> job_success s' = job_success s"
  using upload_files_fields [of env ps idx n s] by simp

lemma job_try_success:
  assumes "job_success (fst (job_try env job))"
  shows "snd (job_try env job) = done_edit env
       \<and> (\<exists>sd. ensure_session_dir env = Inr sd \<and> session_dir (fst (job_try env job)) = Some sd)"
  using assms
  by (auto simp: job_try_def Let_def dest!: upload_files_fieldsD
        split: option.splits sum.splits if_splits prod.splits)

lemma job_try_session:
  assumes "session_dir (fst (job_try env job)) = Some sd"
  shows "ensure_session_dir env = Inr sd"
  using assms
  by (auto simp: job_try_def Let_def dest!: upload_files_fieldsD
        split: option.splits sum.splits if_splits prod.splits)

lemma cleanup_try_cases:
  "cleanup_try fs sd0 rootd = Inr (fs', out) \<Longrightarrow>
     (out = Deleted \<and>
        (\<exists>rt sd. resolve fs rootd = Inr rt \<and> resolve fs sd0 = Inr sd \<and> is_relative_to sd rt
           \<and> prefix ''session-'' (name sd) \<and> sd \<in> set (entries fs)
           \<and> fs' = fs\<lparr>entries := filter (\<lambda>q. \<not> prefix sd q) (entries fs)\<rparr>))
     \<or> (out \<noteq> Deleted \<and> fs' = fs)"
  by (auto simp: cleanup_try_def rmtree_def split: sum.splits if_splits option.splits)

lemma cleanup_cases:
  assumes "cleanup_session_dir fs sd0 rootd = (fs', out, esc)"
  shows "(out = Deleted \<and>
        (\<exists>rt sd. resolve fs rootd = Inr rt \<and> resolve fs sd0 = Inr sd \<and> is_relative_to sd rt
           \<and> prefix ''session-'' (name sd) \<and> sd \<in> set (entries fs)
           \<and> fs' = fs\<lparr>entries := filter (\<lambda>q. \<not> prefix sd q) (entries fs)\<rparr>))
     \<or> (out \<noteq> Deleted \<and> fs' = fs)"
proof (cases "cleanup_try fs sd0 rootd")
  case (Inl e)
  with assms show ?thesis
    by (auto simp: cleanup_session_dir_def split: if_splits)
next
  case (Inr res)
  obtain f o' where res: "res = (f, o')" by (cases res)
  with Inr assms have "f = fs'" "o' = out"
    by (simp_all add: cleanup_session_dir_def)
  with Inr res cleanup_try_cases [of fs sd0 rootd fs' out] show ?thesis by simp
qed

lemma cleanup_try_raises:
  "cleanup_try fs sd0 rootd = Inl e \<Longrightarrow>
     (\<exists>p. resolve fs p = Inl e) \<or> (\<exists>p. rmtree_fault fs p = Some e) \<or> e = FileNotFoundError"
  by (auto simp: cleanup_try_def rmtree_def split: sum.splits if_splits option.splits)

lemma cleanup_no_escape:
  assumes "\<And>p e. resolve fs p = Inl e \<Longrightarrow> is_Exception e"
    and "\<And>p e. rmtree_fault fs p = Some e \<Longrightarrow> is_Exception e"
  shows "snd (snd (cleanup_session_dir fs sd0 rootd)) = None
       \<and> fst (snd (cleanup_session_dir fs sd0 rootd)) \<noteq> Escaped"
proof (cases "cleanup_try fs sd0 rootd")
  case (Inl e)
  from cleanup_try_raises [OF Inl] assms have "is_Exception e"
    by (auto simp: is_Exception_def)
  with Inl show ?thesis
    by (simp add: cleanup_session_dir_def)
next
  case (Inr res)
  obtain f out where res: "res = (f, out)" by (cases res)
  with Inr have "out \<noteq> Escaped"
    by (auto simp: cleanup_try_def split: sum.splits if_splits)
  with Inr res show ?thesis
    by (simp add: cleanup_session_dir_def)
qed

lemma worker_job_no_cleanup:
  assumes "\<not> job_success (fst (job_try env job))"
  shows "worker_job env fs rootd job =
           \<lparr>final_fs = fs, cleanup = None,
            raised = (case snd (job_try env job) of
                        None \<Rightarrow> None
                      | Some e \<Rightarrow> if is_Exception e then failure_edit env else Some e),
            succeeded = False,
            edits = (case snd (job_try env job) of
                       None \<Rightarrow> rendered (fst (job_try env job))
                     | Some e \<Rightarrow> if is_Exception e
                                 then rendered (fst (job_try env job)) @ [failure_text job]
                                 else rendered (fst (job_try env job)))\<rparr>"
  using assms
  by (cases "job_try env job") (auto simp: worker_job_def split: option.splits)

lemma worker_job_cleanup:
  assumes "job_success (fst (job_try env job))"
    and "session_dir (fst (job_try env job)) = Some sd0"
    and "cleanup_session_dir fs sd0 rootd = (fs', out, esc)"
  shows "worker_job env fs rootd job =
           \<lparr>final_fs = fs', cleanup = Some out,
            raised = (case esc of
                        Some e \<Rightarrow> Some e
                      | None \<Rightarrow>
                          (case snd (job_try env job) of
                             None \<Rightarrow> None
                           | Some e \<Rightarrow> if is_Exception e then failure_edit env else Some e)),
            succeeded = True,
            edits = (case snd (job_try env job) of
                       None \<Rightarrow> rendered (fst (job_try env job))
                     | Some e \<Rightarrow> if is_Exception e
                                 then rendered (fst (job_try env job)) @ [failure_text job]
                                 else rendered (fst (job_try env job)))\<rparr>"
  using assms
  by (cases "job_try env job") (auto simp: worker_job_def split: option.splits)

lemma upload_files_ok:
  "(snd (upload_files env ps idx n s) = None)
   = (\<forall>i<length ps. safe_edit_italic (upload_edit env (idx + i)) = None \<and> send_file env (ps ! i) = None)"
proof (induction ps arbitrary: idx s)
  case Nil
  show ?case by simp
next
  case (Cons p ps)
  show ?case
    using Cons.IH [of "Suc idx" "s\<lparr>rendered := rendered s @ [italic (upload_label idx n @ ''...'')]\<rparr>"]
    by (auto simp: Let_def All_less_Suc2 split: option.splits)
qed

lemma job_success_iff:
  "job_success (fst (job_try env job))
   = (start_edit env = None
      \<and> (\<exists>sd files. ensure_session_dir env = Inr sd \<and> download_urls env = Inr files \<and> files \<noteq> []
            \<and> safe_edit_italic (completed_edit env) = None
            \<and> (\<forall>i<length files. safe_edit_italic (upload_edit env (Suc i)) = None
                                 \<and> send_file env (files ! i) = None)))"
proof (cases "start_edit env")
  case (Some e)
  then show ?thesis by (simp add: job_try_def)
next
  case None
  show ?thesis
  proof (cases "ensure_session_dir env")
    case (Inl e)
    with None show ?thesis by (simp add: job_try_def)
  next
    case (Inr sd)
    show ?thesis
    proof (cases "download_urls env")
      case (Inl e)
      with None Inr show ?thesis by (simp add: job_try_def)
    next
      case files: (Inr files)
      show ?thesis
      proof (cases "files = [] \<or> safe_edit_italic (completed_edit env) \<noteq> None")
        case True
        with None Inr files show ?thesis by (auto simp: job_try_def Let_def)
      next
        case False
        let ?s2 = "\<lparr>session_dir = Some sd, job_success = False,
                     rendered = [italic ''Starting download... 0%'', italic ''Download completed... 100%'']\<rparr>"
        obtain s3 r where u: "upload_files env files 1 (length files) ?s2 = (s3, r)"
          by (cases "upload_files env files 1 (length files) ?s2")
        from upload_files_fieldsD [OF u] have js: "\<not> job_success s3" by simp
        from upload_files_ok [of env files 1 "length files" ?s2] u
        have ok: "(r = None) = (\<forall>i<length files. safe_edit_italic (upload_edit env (Suc i)) = None
                                 \<and> send_file env (files ! i) = None)"
          by simp
        from None Inr files False u js ok show ?thesis
          by (cases r) (auto simp: job_try_def Let_def)
      qed
    qed
  qed
qed

text \<open>
  C5 (amended). The pass of the worker loop for one job sets \<^verbatim>\<open>job_success\<close> exactly
  when the starting edit, the creation of the session directory and the download came
  back, the download produced at least one file, and every file was handed to
  \<^verbatim>\<open>send_file\<close> without an exception (no awaited status edit in between being
  cancelled); it calls the cleanup exactly when \<^verbatim>\<open>job_success\<close> was set, and once
  it is set the only call of the \<^verbatim>\<open>try\<close> block that can still raise is the final
  "Done." edit. The file system changes only when the cleanup deleted: then the job had
  succeeded, both paths resolved, the resolved session directory is the resolved download
  root or lies under it (\<^verbatim>\<open>is_relative_to\<close>), its name starts with "session-", and
  exactly the entries at or under it are gone. When the \<^verbatim>\<open>try\<close> block raises an
  \<^verbatim>\<open>Exception\<close> while \<^verbatim>\<open>job_success\<close> is still unset, the cleanup is not called, the
  file system is as it was, and the last edit attempted is the generic failure message.
\<close>

theorem cleanup_only_after_success:
  assumes r: "r = worker_job env fs rootd job"
    and s: "s = fst (job_try env job)"
    and x: "x = snd (job_try env job)"
  shows "succeeded r = job_success s
       \<and> job_success s
           = (start_edit env = None
              \<and> (\<exists>sd files. ensure_session_dir env = Inr sd \<and> download_urls env = Inr files
                    \<and> files \<noteq> [] \<and> safe_edit_italic (completed_edit env) = None
                    \<and> (\<forall>i<length files. safe_edit_italic (upload_edit env (Suc i)) = None
                                         \<and> send_file env (files ! i) = None)))
       \<and> (cleanup r \<noteq> None) = job_success s
       \<and> (job_success s \<longrightarrow> x = done_edit env)
       \<and> (cleanup r \<noteq> Some Deleted \<longrightarrow> final_fs r = fs)
       \<and> (cleanup r = Some Deleted \<longrightarrow>
            job_success s \<and>
            (\<exists>sd0 rt sd. ensure_session_dir env = Inr sd0 \<and> resolve fs rootd = Inr rt
               \<and> resolve fs sd0 = Inr sd \<and> is_relative_to sd rt \<and> prefix ''session-'' (name sd)
               \<and> final_fs r = fs\<lparr>entries := filter (\<lambda>q. \<not> prefix sd q) (entries fs)\<rparr>))
       \<and> (\<not> job_success s \<and> x = Some e \<and> is_Exception e \<longrightarrow>
            cleanup r = None \<and> final_fs r = fs \<and> edits r = rendered s @ [failure_text job]
            \<and> raised r = failure_edit env)"
proof -
  have flag: "job_success s
           = (start_edit env = None
              \<and> (\<exists>sd files. ensure_session_dir env = Inr sd \<and> download_urls env = Inr files
                    \<and> files \<noteq> [] \<and> safe_edit_italic (completed_edit env) = None
                    \<and> (\<forall>i<length files. safe_edit_italic (upload_edit env (Suc i)) = None
                                         \<and> send_file env (files ! i) = None)))"
    unfolding s by (rule job_success_iff)
  have rest: "succeeded r = job_success s
       \<and> (cleanup r \<noteq> None) = job_success s
       \<and> (job_success s \<longrightarrow> x = done_edit env)
       \<and> (cleanup r \<noteq> Some Deleted \<longrightarrow> final_fs r = fs)
       \<and> (cleanup r = Some Deleted \<longrightarrow>
            job_success s \<and>
            (\<exists>sd0 rt sd. ensure_session_dir env = Inr sd0 \<and> resolve fs rootd = Inr rt
               \<and> resolve fs sd0 = Inr sd \<and> is_relative_to sd rt \<and> prefix ''session-'' (name sd)
               \<and> final_fs r = fs\<lparr>entries := filter (\<lambda>q. \<not> prefix sd q) (entries fs)\<rparr>))
       \<and> (\<not> job_success s \<and> x = Some e \<and> is_Exception e \<longrightarrow>
            cleanup r = None \<and> final_fs r = fs \<and> edits r = rendered s @ [failure_text job]
            \<and> raised r = failure_edit env)"
  proof (cases "job_success s")
    case False
    with worker_job_no_cleanup [of env job fs rootd] r s x show ?thesis
      by auto
  next
    case True
    from job_try_success [of env job] True s x obtain sd0 where
      fin: "x = done_edit env" and sd0: "ensure_session_dir env = Inr sd0"
        "session_dir (fst (job_try env job)) = Some sd0"
      by auto
    obtain fs' out esc where c: "cleanup_session_dir fs sd0 rootd = (fs', out, esc)"
      by (cases "cleanup_session_dir fs sd0 rootd") auto
    from worker_job_cleanup [OF _ sd0(2) c] True s r
    have fields: "final_fs r = fs'" "cleanup r = Some out" "succeeded r = True"
      by simp_all
    from cleanup_cases [OF c] fields True fin sd0(1) show ?thesis
      by auto
  qed
  from rest have first: "succeeded r = job_success s"
    by (rule conjunct1)
  from rest have others: "(cleanup r \<noteq> None) = job_success s
       \<and> (job_success s \<longrightarrow> x = done_edit env)
       \<and> (cleanup r \<noteq> Some Deleted \<longrightarrow> final_fs r = fs)
       \<and> (cleanup r = Some Deleted \<longrightarrow>
            job_success s \<and>
            (\<exists>sd0 rt sd. ensure_session_dir env = Inr sd0 \<and> resolve fs rootd = Inr rt
               \<and> resolve fs sd0 = Inr sd \<and> is_relative_to sd rt \<and> prefix ''session-'' (name sd)
               \<and> final_fs r = fs\<lparr>entries := filter (\<lambda>q. \<not> prefix sd q) (entries fs)\<rparr>))
       \<and> (\<not> job_success s \<and> x = Some e \<and> is_Exception e \<longrightarrow>
            cleanup r = None \<and> final_fs r = fs \<and> edits r = rendered s @ [failure_text job]
            \<and> raised r = failure_edit env)"
    by (rule conjunct2)
  show ?thesis
    by (rule conjI [OF first conjI [OF flag others] ])
qed

theorem cleanup_only_after_success_witness:
  "\<not> job_success (fst (job_try ((sample_env None)\<lparr>download_urls := Inl (Error ''DownloadError'')\<rparr>) sample_job))
   \<and> snd (job_try ((sample_env None)\<lparr>download_urls := Inl (Error ''DownloadError'')\<rparr>) sample_job)
       = Some (Error ''DownloadError'')
   \<and> is_Exception (Error ''DownloadError'')
   \<and> cleanup (worker_job ((sample_env None)\<lparr>download_urls := Inl (Error ''DownloadError'')\<rparr>)
                 (sample_fs None) [''data''] sample_job) = None
   \<and> final_fs (worker_job ((sample_env None)\<lparr>download_urls := Inl (Error ''DownloadError'')\<rparr>)
                 (sample_fs None) [''data''] sample_job) = sample_fs None
   \<and> edits (worker_job ((sample_env None)\<lparr>download_urls := Inl (Error ''DownloadError'')\<rparr>)
                 (sample_fs None) [''data''] sample_job)
       = [italic ''Starting download... 0%'', failure_text sample_job]
   \<and> cleanup (worker_job (sample_env None) (sample_fs None) [''data''] sample_job) = Some Deleted
   \<and> job_success (fst (job_try (sample_env None) sample_job))
   \<and> entries (final_fs (worker_job (sample_env None) (sample_fs None) [''data''] sample_job)) = [ [''data''] ]"
proof -
  let ?env = "(sample_env None)\<lparr>download_urls := Inl (Error ''DownloadError'')\<rparr>"
  have t: "job_try ?env sample_job
           = (\<lparr>session_dir = Some [''data'', ''session-20240101-000000-ab12cd34''], job_success = False,
               rendered = [italic ''Starting download... 0%'']\<rparr>, Some (Error ''DownloadError''))"
    by (simp add: job_try_def sample_env_def)
  have h1: "\<not> job_success (fst (job_try ?env sample_job))" by (simp add: t)
  have h2: "snd (job_try ?env sample_job) = Some (Error ''DownloadError'')" by (simp add: t)
  have h3: "is_Exception (Error ''DownloadError'')" by (simp add: is_Exception_def)
  from cleanup_only_after_success [OF refl refl refl, of ?env "sample_fs None" "[''data'']" sample_job
      "Error ''DownloadError''", THEN conjunct2, THEN conjunct2, THEN conjunct2, THEN conjunct2,
      THEN conjunct2, THEN conjunct2] h1 h2 h3
  have a: "cleanup (worker_job ?env (sample_fs None) [''data''] sample_job) = None"
    and b: "final_fs (worker_job ?env (sample_fs None) [''data''] sample_job) = sample_fs None"
    and c: "edits (worker_job ?env (sample_fs None) [''data''] sample_job)
            = rendered (fst (job_try ?env sample_job)) @ [failure_text sample_job]"
    by blast+
  from c have c': "edits (worker_job ?env (sample_fs None) [''data''] sample_job)
            = [italic ''Starting download... 0%'', failure_text sample_job]"
    by (simp add: t)
  have d: "cleanup (worker_job (sample_env None) (sample_fs None) [''data''] sample_job) = Some Deleted"
    by code_simp
  have e: "entries (final_fs (worker_job (sample_env None) (sample_fs None) [''data''] sample_job)) = [ [''data''] ]"
    by code_simp
  from cleanup_only_after_success [OF refl refl refl, of "sample_env None" "sample_fs None" "[''data'']"
      sample_job, THEN conjunct2, THEN conjunct2, THEN conjunct2, THEN conjunct2, THEN conjunct2,
      THEN conjunct1] d
  have f: "job_success (fst (job_try (sample_env None) sample_job))"
    by blast
  from h1 h2 h3 a b c' d f e show ?thesis by (intro conjI)
qed

text \<open>
  C5 as stated fails on the code: \<^verbatim>\<open>job_success\<close> is set before the final "Done."
  edit, so when that edit raises an \<^verbatim>\<open>Exception\<close> the failure message is rendered and
  the session directory is deleted all the same. And a session path that resolves to the
  download root itself, with a root named "session-...", passes both checks although it is
  no descendant of the root.
\<close>

theorem cleanup_after_exception_counterexample:
  "snd (job_try (sample_env (Some (Error ''BadRequest''))) sample_job) = Some (Error ''BadRequest'')
   \<and> cleanup (worker_job (sample_env (Some (Error ''BadRequest''))) (sample_fs None) [''data''] sample_job)
       = Some Deleted
   \<and> entries (final_fs (worker_job (sample_env (Some (Error ''BadRequest''))) (sample_fs None)
                 [''data''] sample_job)) = [ [''data''] ]
   \<and> last (edits (worker_job (sample_env (Some (Error ''BadRequest''))) (sample_fs None)
                 [''data''] sample_job)) = failure_text sample_job
   \<and> fst (snd (cleanup_session_dir
        \<lparr>resolve = Inr, entries = [ [''srv'', ''session-store''], [''srv'', ''session-store'', ''x''] ],
         rmtree_fault = (\<lambda>p. None)\<rparr>
        [''srv'', ''session-store''] [''srv'', ''session-store''])) = Deleted"
  by code_simp

text \<open>
  C10. Provided \<^verbatim>\<open>Path.resolve\<close> and \<^verbatim>\<open>shutil.rmtree\<close> raise only instances of
  \<^verbatim>\<open>Exception\<close> (every error of the operating system is one), no exception leaves
  \<^verbatim>\<open>_cleanup_session_dir\<close>: it deletes, refuses, returns silently on
  \<^verbatim>\<open>FileNotFoundError\<close>, or logs any other exception and returns, and unless it deleted
  the file system is as it was. So the exception that leaves a pass of the worker loop,
  and whether the job counts as successful, are those of the job's own \<^verbatim>\<open>try\<close> and
  \<^verbatim>\<open>except\<close> blocks whatever the cleanup met; a job whose \<^verbatim>\<open>try\<close> block raised
  nothing lets the loop go on.
\<close>

theorem cleanup_never_raises:
  assumes res0: "\<forall>p e. resolve fs p = Inl e \<longrightarrow> is_Exception e"
    and rmf0: "\<forall>p e. rmtree_fault fs p = Some e \<longrightarrow> is_Exception e"
  shows "snd (snd (cleanup_session_dir fs sd0 rootd)) = None
       \<and> fst (snd (cleanup_session_dir fs sd0 rootd))
            \<in> {Deleted, RefusedOutsideRoot, RefusedNotSession, AlreadyGone, FailureLogged}
       \<and> (fst (snd (cleanup_session_dir fs sd0 rootd)) \<noteq> Deleted \<longrightarrow>
            fst (cleanup_session_dir fs sd0 rootd) = fs)
       \<and> (cleanup_try fs sd0 rootd = Inl FileNotFoundError \<longrightarrow>
            cleanup_session_dir fs sd0 rootd = (fs, AlreadyGone, None))
       \<and> (cleanup_try fs sd0 rootd = Inl e \<and> e \<noteq> FileNotFoundError \<longrightarrow>
            cleanup_session_dir fs sd0 rootd = (fs, FailureLogged, None))
       \<and> raised (worker_job env fs rootd job)
            = (case snd (job_try env job) of
                 None \<Rightarrow> None
               | Some e \<Rightarrow> if is_Exception e then failure_edit env else Some e)
       \<and> succeeded (worker_job env fs rootd job) = job_success (fst (job_try env job))
       \<and> (snd (job_try env job) = None \<longrightarrow> raised (worker_job env fs rootd job) = None)"
proof -
  from res0 have res: "\<And>p e. resolve fs p = Inl e \<Longrightarrow> is_Exception e" by blast
  from rmf0 have rmf: "\<And>p e. rmtree_fault fs p = Some e \<Longrightarrow> is_Exception e" by blast
  have ne: "\<And>a b. snd (snd (cleanup_session_dir fs a b)) = None
                 \<and> fst (snd (cleanup_session_dir fs a b)) \<noteq> Escaped"
    using res rmf by (rule cleanup_no_escape)
  have p1: "snd (snd (cleanup_session_dir fs sd0 rootd)) = None"
    using ne by blast
  have p2: "fst (snd (cleanup_session_dir fs sd0 rootd))
            \<in> {Deleted, RefusedOutsideRoot, RefusedNotSession, AlreadyGone, FailureLogged}"
    using ne [of sd0 rootd] by (cases "fst (snd (cleanup_session_dir fs sd0 rootd))") simp_all
  have p3: "fst (snd (cleanup_session_dir fs sd0 rootd)) \<noteq> Deleted \<longrightarrow>
            fst (cleanup_session_dir fs sd0 rootd) = fs"
    using cleanup_cases [of fs sd0 rootd "fst (cleanup_session_dir fs sd0 rootd)"
        "fst (snd (cleanup_session_dir fs sd0 rootd))" "snd (snd (cleanup_session_dir fs sd0 rootd))"]
    by auto
  have p4: "cleanup_try fs sd0 rootd = Inl FileNotFoundError \<longrightarrow>
            cleanup_session_dir fs sd0 rootd = (fs, AlreadyGone, None)"
    by (simp add: cleanup_session_dir_def)
  have p5: "cleanup_try fs sd0 rootd = Inl e \<and> e \<noteq> FileNotFoundError \<longrightarrow>
            cleanup_session_dir fs sd0 rootd = (fs, FailureLogged, None)"
  proof (intro impI, elim conjE)
    assume i: "cleanup_try fs sd0 rootd = Inl e" and n: "e \<noteq> FileNotFoundError"
    from cleanup_try_raises [OF i] n res rmf have "is_Exception e" by auto
    with i n show "cleanup_session_dir fs sd0 rootd = (fs, FailureLogged, None)"
      by (simp add: cleanup_session_dir_def)
  qed
  have p67: "raised (worker_job env fs rootd job)
            = (case snd (job_try env job) of
                 None \<Rightarrow> None
               | Some e \<Rightarrow> if is_Exception e then failure_edit env else Some e)
       \<and> succeeded (worker_job env fs rootd job) = job_success (fst (job_try env job))"
  proof (cases "job_success (fst (job_try env job))")
    case False
    with worker_job_no_cleanup [OF False, of fs rootd] show ?thesis by simp
  next
    case True
    from job_try_success [OF True] obtain sd where
      sd: "session_dir (fst (job_try env job)) = Some sd" by auto
    obtain fs' out esc where c: "cleanup_session_dir fs sd rootd = (fs', out, esc)"
      by (cases "cleanup_session_dir fs sd rootd") auto
    from ne [of sd rootd] c have "esc = None" by simp
    with worker_job_cleanup [OF True sd c] True show ?thesis by simp
  qed
  then have p8: "snd (job_try env job) = None \<longrightarrow> raised (worker_job env fs rootd job) = None"
    by simp
  from p1 p2 p3 p4 p5 p67 p8 show ?thesis by (intro conjI) simp_all
qed

theorem cleanup_never_raises_witness:
  "cleanup_session_dir (sample_fs (Some (Error ''PermissionError'')))
      [''data'', ''session-20240101-000000-ab12cd34''] [''data'']
     = (sample_fs (Some (Error ''PermissionError'')), FailureLogged, None)
   \<and> cleanup_try (sample_fs (Some (Error ''PermissionError'')))
      [''data'', ''session-20240101-000000-ab12cd34''] [''data''] = Inl (Error ''PermissionError'')
   \<and> snd (job_try (sample_env None) sample_job) = None
   \<and> raised (worker_job (sample_env None) (sample_fs (Some (Error ''PermissionError''))) [''data''] sample_job)
       = None
   \<and> succeeded (worker_job (sample_env None) (sample_fs (Some (Error ''PermissionError''))) [''data'']
        sample_job)"
proof -
  let ?fs = "sample_fs (Some (Error ''PermissionError''))"
  have res: "\<forall>p e. resolve ?fs p = Inl e \<longrightarrow> is_Exception e"
    by (simp add: sample_fs_def)
  have rmf: "\<forall>p e. rmtree_fault ?fs p = Some e \<longrightarrow> is_Exception e"
    by (auto simp: sample_fs_def is_Exception_def)
  have t: "cleanup_try ?fs [''data'', ''session-20240101-000000-ab12cd34''] [''data'']
           = Inl (Error ''PermissionError'')"
    by (simp add: cleanup_try_def sample_fs_def is_relative_to_def name_def rmtree_def)
  have j: "snd (job_try (sample_env None) sample_job) = None"
    by code_simp
  have js: "job_success (fst (job_try (sample_env None) sample_job))"
    by code_simp
  note w = cleanup_never_raises [of ?fs "[''data'', ''session-20240101-000000-ab12cd34'']" "[''data'']"
      "Error ''PermissionError''" "sample_env None" sample_job, OF res rmf]
  from w t have a: "cleanup_session_dir ?fs [''data'', ''session-20240101-000000-ab12cd34''] [''data'']
     = (?fs, FailureLogged, None)"
    by simp
  from w j have b: "raised (worker_job (sample_env None) ?fs [''data''] sample_job) = None"
    by blast
  from w js have c: "succeeded (worker_job (sample_env None) ?fs [''data''] sample_job)"
    by simp
  from a t j b c show ?thesis by (intro conjI)
qed

end
